theory Spec2Isabelle
  imports Main "HOL-Library.Word"
begin

unbundle bit_operations_syntax

section \<open>Common vocabulary\<close>

type_synonym byte = "8 word"
type_synonym lane = "64 word"

text \<open>
  A C pointer is \<open>nat option\<close>: \<open>None\<close> is \<open>NULL\<close>, \<open>Some a\<close> the address \<open>a\<close>.
  \<open>ossl_prov_is_running()\<close> reads process-wide state that none of the modelled functions writes;
  every function that calls it takes its answer as the argument \<open>running\<close>.
  \<open>ERR_raise\<close> is modelled by returning the raised reason next to the return value.
\<close>

datatype prov_error = ERR_R_INTERNAL_ERROR | PROV_R_FAILED_TO_GET_PARAMETER

section \<open>Secure memory wrappers (crypto/mem\_sec.c)\<close>

text \<open>
  The four entry points forward to \<open>zhard_alloc\<close> and \<open>zhard_free\<close> of the C runtime
  (stdfil.h), which the repository does not contain. They are parameters of the model:
  \<open>zhard_alloc\<close> maps a heap and a size to a pointer and a heap, \<open>zhard_free\<close> maps a
  heap and a pointer to a heap. The \<open>file\<close> and \<open>line\<close> arguments are kept as the source
  has them.
\<close>

definition CRYPTO_secure_malloc ::
  "('h \<Rightarrow> nat \<Rightarrow> 'p \<times> 'h) \<Rightarrow> 'h \<Rightarrow> nat \<Rightarrow> string \<Rightarrow> int \<Rightarrow> 'p \<times> 'h" where
  "CRYPTO_secure_malloc zhard_alloc h num file line = zhard_alloc h num"

definition CRYPTO_secure_zalloc ::
  "('h \<Rightarrow> nat \<Rightarrow> 'p \<times> 'h) \<Rightarrow> 'h \<Rightarrow> nat \<Rightarrow> string \<Rightarrow> int \<Rightarrow> 'p \<times> 'h" where
  "CRYPTO_secure_zalloc zhard_alloc h num file line = zhard_alloc h num"

definition CRYPTO_secure_free ::
  "('h \<Rightarrow> 'p \<Rightarrow> 'h) \<Rightarrow> 'h \<Rightarrow> 'p \<Rightarrow> string \<Rightarrow> int \<Rightarrow> 'h" where
  "CRYPTO_secure_free zhard_free h ptr file line = zhard_free h ptr"

definition CRYPTO_secure_clear_free ::
  "('h \<Rightarrow> 'p \<Rightarrow> 'h) \<Rightarrow> 'h \<Rightarrow> 'p \<Rightarrow> nat \<Rightarrow> string \<Rightarrow> int \<Rightarrow> 'h" where
  "CRYPTO_secure_clear_free zhard_free h ptr num file line = zhard_free h ptr"

section \<open>Key exchange context (providers/implementations/exchange/ecx\_exch.c)\<close>

record PROV_ECX_CTX =
  keylen :: nat
  key :: "nat option"
  peerkey :: "nat option"

text \<open>
  \<open>ECX_KEY\<close> and its helpers are declared in crypto/ecx.h, outside the files modelled here. The
  model takes them as a record of operations over a key heap \<open>'h\<close>: the \<open>keylen\<close> field
  of the key at an address, \<open>ossl_ecx_key_up_ref\<close> (its int result as a bool, and the heap
  it leaves), and \<open>ossl_ecx_key_free\<close> (which accepts \<open>NULL\<close>).
\<close>

record 'h ECX_KEY_ops =
  key_keylen :: "'h \<Rightarrow> nat \<Rightarrow> nat"
  ossl_ecx_key_up_ref :: "'h \<Rightarrow> nat \<Rightarrow> bool \<times> 'h"
  ossl_ecx_key_free :: "'h \<Rightarrow> nat option \<Rightarrow> 'h"

text \<open>
  The result of \<open>ecx_init\<close> and \<open>ecx_set_peer\<close>: the int returned, the error raised (if
  any), the context the pointer \<open>vecxctx\<close> refers to afterwards, and the key heap. The
  disjunction of the source is evaluated left to right and stops at the first true
  disjunct, so \<open>ossl_ecx_key_up_ref\<close> runs only when the three tests before it failed.
\<close>

definition ecx_init ::
  "'h ECX_KEY_ops \<Rightarrow> bool \<Rightarrow> 'h \<Rightarrow> PROV_ECX_CTX option \<Rightarrow> nat option
     \<Rightarrow> int \<times> prov_error option \<times> PROV_ECX_CTX option \<times> 'h" where
  "ecx_init ops running h vecxctx vkey =
     (if \<not> running then (0, None, vecxctx, h)
      else case vecxctx of
        None \<Rightarrow> (0, Some ERR_R_INTERNAL_ERROR, vecxctx, h)
      | Some ecxctx \<Rightarrow>
          (case vkey of
             None \<Rightarrow> (0, Some ERR_R_INTERNAL_ERROR, vecxctx, h)
           | Some k \<Rightarrow>
               if key_keylen ops h k \<noteq> keylen ecxctx
               then (0, Some ERR_R_INTERNAL_ERROR, vecxctx, h)
               else (case ossl_ecx_key_up_ref ops h k of
                       (ok, h1) \<Rightarrow>
                         if \<not> ok then (0, Some ERR_R_INTERNAL_ERROR, vecxctx, h1)
                         else (1, None, Some (ecxctx\<lparr>key := Some k\<rparr>),
                               ossl_ecx_key_free ops h1 (key ecxctx)))))"

definition ecx_set_peer ::
  "'h ECX_KEY_ops \<Rightarrow> bool \<Rightarrow> 'h \<Rightarrow> PROV_ECX_CTX option \<Rightarrow> nat option
     \<Rightarrow> int \<times> prov_error option \<times> PROV_ECX_CTX option \<times> 'h" where
  "ecx_set_peer ops running h vecxctx vkey =
     (if \<not> running then (0, None, vecxctx, h)
      else case vecxctx of
        None \<Rightarrow> (0, Some ERR_R_INTERNAL_ERROR, vecxctx, h)
      | Some ecxctx \<Rightarrow>
          (case vkey of
             None \<Rightarrow> (0, Some ERR_R_INTERNAL_ERROR, vecxctx, h)
           | Some k \<Rightarrow>
               if key_keylen ops h k \<noteq> keylen ecxctx
               then (0, Some ERR_R_INTERNAL_ERROR, vecxctx, h)
               else (case ossl_ecx_key_up_ref ops h k of
                       (ok, h1) \<Rightarrow>
                         if \<not> ok then (0, Some ERR_R_INTERNAL_ERROR, vecxctx, h1)
                         else (1, None, Some (ecxctx\<lparr>peerkey := Some k\<rparr>),
                               ossl_ecx_key_free ops h1 (peerkey ecxctx)))))"

text \<open>
  A reference-counting key heap, used to run the two functions on concrete keys: an
  address holds a key length and a count; taking a reference fails on a count that is
  not positive, and releasing one decrements the count.
\<close>

definition refcount_ops :: "(nat \<Rightarrow> nat \<times> int) ECX_KEY_ops" where
  "refcount_ops =
     \<lparr> key_keylen = (\<lambda>h k. fst (h k)),
       ossl_ecx_key_up_ref =
         (\<lambda>h k. if 0 < snd (h k) then (True, h(k := (fst (h k), snd (h k) + 1)))
                 else (False, h)),
       ossl_ecx_key_free =
         (\<lambda>h p. case p of None \<Rightarrow> h
                 | Some k \<Rightarrow> h(k := (fst (h k), snd (h k) - 1))) \<rparr>"

definition two_keys :: "nat \<Rightarrow> nat \<times> int" where
  "two_keys a = (if a = 1 then (32, 1) else (56, 1))"

section \<open>The sponge engine (providers/implementations/digests/sha3\_prov.c)\<close>

subsection \<open>The context\<close>

text \<open>
  \<open>PROV_SHA3_METHOD\<close> is a pair of function pointers. The functions they can point to
  are the ones this file binds in its method tables, so a pointer is a tag.
\<close>

datatype sha3_absorb_fn = Generic_absorb | S390x_absorb | Armsha3_absorb

datatype sha3_final_fn =
  Generic_final | S390x_sha3_final | S390x_shake_final | S390x_keccak_final | S390x_kmac_final

record PROV_SHA3_METHOD =
  absorb :: sha3_absorb_fn
  final :: sha3_final_fn

text \<open>
  Modelled from the spec: \<open>KECCAK1600_CTX\<close> is declared in internal/sha3.h, which is not
  among the files modelled here. The fields are the ones sha3\_prov.c reads and writes, with the
  meaning section 3 of the specification gives them: the lanes of the permutation state
  \<open>A\<close> (5 x 5, row by row), the rate \<open>block_size\<close>, the output length \<open>md_size\<close>, the
  staging array \<open>buf\<close> with its count \<open>bufsz\<close> of used bytes, the padding byte \<open>pad\<close>
  and the bound method pair \<open>meth\<close>. The sizes are \<open>size_t\<close>; they are natural numbers
  here, and under \<open>ctx_wf\<close> below no subtraction of the source goes below zero and no
  copy leaves the array.
\<close>

record KECCAK1600_CTX =
  A :: "lane list"
  block_size :: nat
  md_size :: nat
  bufsz :: nat
  buf :: "byte list"
  pad :: byte
  meth :: PROV_SHA3_METHOD

definition ctx_wf :: "KECCAK1600_CTX \<Rightarrow> bool" where
  "ctx_wf ctx = (bufsz ctx < block_size ctx \<and> block_size ctx \<le> length (buf ctx))"

text \<open>
  \<open>memcpy (dst + off, src, n)\<close> on an array held as a list: the \<open>n\<close> bytes from \<open>off\<close>
  on are replaced by the first \<open>n\<close> bytes of \<open>src\<close>.
\<close>

definition memcpy :: "byte list \<Rightarrow> nat \<Rightarrow> byte list \<Rightarrow> nat \<Rightarrow> byte list" where
  "memcpy dst off src n = take off dst @ take n src @ drop (off + n) dst"

subsection \<open>The permutation backends\<close>

text \<open>
  The permutation \<open>KeccakF1600\<close> itself is outside the specification's scope and outside
  the files modelled here: it is the parameter \<open>f\<close> of everything below.
\<close>

definition load64 :: "byte list \<Rightarrow> lane" where
  "load64 bs = foldr (\<lambda>b w. ucast b OR push_bit 8 w) bs 0"

definition store64 :: "lane \<Rightarrow> byte list" where
  "store64 w = map (\<lambda>i. ucast (drop_bit (8 * i) w)) [0..<8]"

definition xor_block :: "lane list \<Rightarrow> byte list \<Rightarrow> nat \<Rightarrow> lane list" where
  "xor_block st blk w =
     map (\<lambda>i. if i < w then st ! i XOR load64 (take 8 (drop (8 * i) blk)) else st ! i)
       [0..<length st]"

text \<open>
  Modelled from the spec: \<open>SHA3_absorb\<close> (crypto/sha/keccak1600.c) is not among the
  files modelled here. Section 4.1: it consumes every full \<open>r\<close>-byte block of the input, XOR-ing the
  block into the state and applying the permutation once per block, and returns the
  length of the trailing partial block it did not consume. A rate of 0 is outside that
  contract; the model returns at once.
\<close>

function SHA3_absorb ::
  "(lane list \<Rightarrow> lane list) \<Rightarrow> lane list \<Rightarrow> byte list \<Rightarrow> nat \<Rightarrow> lane list \<times> nat" where
  "SHA3_absorb f st inp r =
     (if r = 0 \<or> length inp < r then (st, length inp)
      else SHA3_absorb f (f (xor_block st (take r inp) (r div 8))) (drop r inp) r)"
  by pat_completeness auto
termination
  by (relation "measure (\<lambda>(f, st, inp, r). length inp)") auto

declare SHA3_absorb.simps [simp del]

text \<open>
  Modelled from the spec: \<open>SHA3_squeeze\<close> (crypto/sha/keccak1600.c). Section 4.4: it
  emits the state's bytes in successive \<open>r\<close>-byte chunks, permuting the state between
  chunks, until \<open>len\<close> bytes are out.
\<close>

function SHA3_squeeze ::
  "(lane list \<Rightarrow> lane list) \<Rightarrow> lane list \<Rightarrow> nat \<Rightarrow> nat \<Rightarrow> lane list \<times> byte list" where
  "SHA3_squeeze f st len r =
     (if r = 0 \<or> len \<le> r then (st, take len (concat (map store64 st)))
      else case SHA3_squeeze f (f st) (len - r) r of
             (st', rest) \<Rightarrow> (st', take r (concat (map store64 st)) @ rest))"
  by pat_completeness auto
termination
  by (relation "measure (\<lambda>(f, st, len, r). len)") auto

declare SHA3_squeeze.simps [simp del]

text \<open>
  Modelled from the spec: the hardware routines \<open>s390x_kimd\<close> and \<open>SHA3_absorb_cext\<close>
  are assembly outside the files modelled here. Section 4.1 requires every backend to leave the
  state byte-identical to the generic one, so both absorb the whole blocks of their input
  as \<open>SHA3_absorb\<close> does. The instruction derives the rate from its function code \<open>fc\<close>;
  the model is given the rate next to it.
\<close>

definition s390x_kimd ::
  "(lane list \<Rightarrow> lane list) \<Rightarrow> nat \<Rightarrow> byte list \<Rightarrow> byte \<Rightarrow> lane list \<Rightarrow> lane list" where
  "s390x_kimd f r inp fc st = fst (SHA3_absorb f st inp r)"

definition SHA3_absorb_cext ::
  "(lane list \<Rightarrow> lane list) \<Rightarrow> lane list \<Rightarrow> byte list \<Rightarrow> nat \<Rightarrow> lane list \<times> nat" where
  "SHA3_absorb_cext f st inp r = SHA3_absorb f st inp r"

text \<open>
  The three absorb functions of the file. Each returns the context it leaves and the
  \<open>size_t\<close> it returns. \<open>len % block_size\<close> is undefined in C for a block size of 0 and
  is \<open>len\<close> here; the theorems assume a positive block size.
\<close>

definition generic_sha3_absorb ::
  "(lane list \<Rightarrow> lane list) \<Rightarrow> KECCAK1600_CTX \<Rightarrow> byte list \<Rightarrow> KECCAK1600_CTX \<times> nat" where
  "generic_sha3_absorb f ctx inp =
     (case SHA3_absorb f (A ctx) inp (block_size ctx) of
        (st, rem) \<Rightarrow> (ctx\<lparr>A := st\<rparr>, rem))"

definition s390x_sha3_absorb ::
  "(lane list \<Rightarrow> lane list) \<Rightarrow> KECCAK1600_CTX \<Rightarrow> byte list \<Rightarrow> KECCAK1600_CTX \<times> nat" where
  "s390x_sha3_absorb f ctx inp =
     (let rem = length inp mod block_size ctx
      in (ctx\<lparr>A := s390x_kimd f (block_size ctx) (take (length inp - rem) inp)
                     (pad ctx) (A ctx)\<rparr>,
          rem))"

definition armsha3_sha3_absorb ::
  "(lane list \<Rightarrow> lane list) \<Rightarrow> KECCAK1600_CTX \<Rightarrow> byte list \<Rightarrow> KECCAK1600_CTX \<times> nat" where
  "armsha3_sha3_absorb f ctx inp =
     (case SHA3_absorb_cext f (A ctx) inp (block_size ctx) of
        (st, rem) \<Rightarrow> (ctx\<lparr>A := st\<rparr>, rem))"

text \<open>The call \<open>ctx->meth.absorb (ctx, inp, len)\<close>.\<close>

definition meth_absorb ::
  "(lane list \<Rightarrow> lane list) \<Rightarrow> KECCAK1600_CTX \<Rightarrow> byte list \<Rightarrow> KECCAK1600_CTX \<times> nat" where
  "meth_absorb f ctx inp =
     (case absorb (meth ctx) of
        Generic_absorb \<Rightarrow> generic_sha3_absorb f ctx inp
      | S390x_absorb \<Rightarrow> s390x_sha3_absorb f ctx inp
      | Armsha3_absorb \<Rightarrow> armsha3_sha3_absorb f ctx inp)"

subsection \<open>Update\<close>

text \<open>
  \<open>keccak_update\<close> returns its int and the context it leaves. The first absorb call
  reads the block from \<open>ctx->buf\<close> itself; its return value is dropped, as in the source.
  \<open>keccak_update_rest\<close> is the end of the function, from the second absorb call on,
  which both branches reach.
  \<open>bsz - num\<close> is a difference of natural numbers here; in C it would wrap around for
  \<open>bufsz > block_size\<close>, which the invariant \<open>bufsz < block_size\<close> excludes.
\<close>

definition keccak_update_rest ::
  "(lane list \<Rightarrow> lane list) \<Rightarrow> KECCAK1600_CTX \<Rightarrow> byte list \<Rightarrow> int \<times> KECCAK1600_CTX" where
  "keccak_update_rest f ctx inp =
     (case meth_absorb f ctx inp of
        (ctx', rem) \<Rightarrow>
          if rem \<noteq> 0
          then (1, ctx'\<lparr>buf := memcpy (buf ctx') 0 (drop (length inp - rem) inp) rem,
                       bufsz := rem\<rparr>)
          else (1, ctx'))"

definition keccak_update ::
  "(lane list \<Rightarrow> lane list) \<Rightarrow> KECCAK1600_CTX \<Rightarrow> byte list \<Rightarrow> int \<times> KECCAK1600_CTX" where
  "keccak_update f ctx inp =
     (let bsz = block_size ctx; len = length inp; num = bufsz ctx in
      if len = 0 then (1, ctx)
      else if num \<noteq> 0
      then let rem = bsz - num in
           if len < rem
           then (1, ctx\<lparr>buf := memcpy (buf ctx) num inp len, bufsz := num + len\<rparr>)
           else let c1 = ctx\<lparr>buf := memcpy (buf ctx) num inp rem\<rparr>;
                    c2 = fst (meth_absorb f c1 (take bsz (buf c1)))
                in keccak_update_rest f (c2\<lparr>bufsz := 0\<rparr>) (drop rem inp)
      else keccak_update_rest f ctx inp)"

text \<open>Streaming a sequence of chunks: one \<open>keccak_update\<close> call per chunk, in order.\<close>

definition keccak_update_all ::
  "(lane list \<Rightarrow> lane list) \<Rightarrow> KECCAK1600_CTX \<Rightarrow> byte list list \<Rightarrow> KECCAK1600_CTX" where
  "keccak_update_all f ctx chunks = foldl (\<lambda>c x. snd (keccak_update f c x)) ctx chunks"

subsection \<open>Final\<close>

text \<open>
  Modelled from the spec: \<open>ossl_sha3_final\<close> (crypto/sha/sha3.c) is not among the
  files modelled here. Section 4.4: a requested length of 0 yields no bytes and has no effect; otherwise
  the buffered remainder is padded with the domain-separation byte, zero bytes and a final
  terminator bit up to \<open>block_size\<close>, the padded block is absorbed, and \<open>md_size\<close> bytes
  are squeezed into the output. It returns its int, the context and the output array.
\<close>

definition ossl_sha3_final ::
  "(lane list \<Rightarrow> lane list) \<Rightarrow> byte list \<Rightarrow> KECCAK1600_CTX
     \<Rightarrow> int \<times> KECCAK1600_CTX \<times> byte list" where
  "ossl_sha3_final f md ctx =
     (let bsz = block_size ctx; num = bufsz ctx in
      if md_size ctx = 0 then (1, ctx, md)
      else
        let b0 = take num (buf ctx) @ replicate (bsz - num) 0;
            b1 = b0[num := pad ctx];
            b2 = b1[bsz - 1 := (b1 ! (bsz - 1)) OR 0x80];
            st = fst (SHA3_absorb f (A ctx) b2 bsz);
            (st', out) = SHA3_squeeze f st (md_size ctx) bsz
        in (1, ctx\<lparr>A := st', buf := b2 @ drop bsz (buf ctx)\<rparr>,
            out @ drop (md_size ctx) md))"

definition generic_sha3_final ::
  "(lane list \<Rightarrow> lane list) \<Rightarrow> byte list \<Rightarrow> KECCAK1600_CTX
     \<Rightarrow> int \<times> KECCAK1600_CTX \<times> byte list" where
  "generic_sha3_final f md ctx = ossl_sha3_final f md ctx"

text \<open>
  The call \<open>ctx->meth.final (out, ctx)\<close>. The s390x final functions run the \<open>KLMD\<close>
  instruction, which is not among the files modelled here: \<open>hw\<close> stands for them.
\<close>

definition meth_final ::
  "(lane list \<Rightarrow> lane list)
     \<Rightarrow> (sha3_final_fn \<Rightarrow> byte list \<Rightarrow> KECCAK1600_CTX \<Rightarrow> int \<times> KECCAK1600_CTX \<times> byte list)
     \<Rightarrow> byte list \<Rightarrow> KECCAK1600_CTX \<Rightarrow> int \<times> KECCAK1600_CTX \<times> byte list" where
  "meth_final f hw md ctx =
     (case final (meth ctx) of
        Generic_final \<Rightarrow> generic_sha3_final f md ctx
      | t \<Rightarrow> hw t md ctx)"

text \<open>
  \<open>keccak_final\<close> returns its int, the context, the output array and the value of
  \<open>*outl\<close> (the argument \<open>outl\<close> is the value before the call).
\<close>

definition keccak_final ::
  "(lane list \<Rightarrow> lane list)
     \<Rightarrow> (sha3_final_fn \<Rightarrow> byte list \<Rightarrow> KECCAK1600_CTX \<Rightarrow> int \<times> KECCAK1600_CTX \<times> byte list)
     \<Rightarrow> bool \<Rightarrow> KECCAK1600_CTX \<Rightarrow> byte list \<Rightarrow> nat \<Rightarrow> nat
     \<Rightarrow> int \<times> KECCAK1600_CTX \<times> byte list \<times> nat" where
  "keccak_final f hw running ctx out outl outsz =
     (if \<not> running then (0, ctx, out, outl)
      else
        let (ret, ctx', out') =
              (if outsz > 0 then meth_final f hw out ctx else (1, ctx, out))
        in (ret, ctx', out', md_size ctx'))"

subsection \<open>Creation, duplication and release\<close>

text \<open>
  Modelled from the spec: the context a \<open>SHA3_newctx\<close> instance returns when the
  provider is running and the allocation succeeds, in the portable build (where
  \<open>SHA3_SET_MD\<close> binds \<open>sha3_generic_md\<close>). \<open>ossl_sha3_init\<close> and the macro
  \<open>SHA3_BLOCKSIZE\<close> are in internal/sha3.h and crypto/sha/sha3.c, outside the
  files modelled here; by sections 3 and 4.3 the state is zeroed, the buffer is empty, the rate is
  \<open>(1600 - 2 * bitlen) / 8\<close> bytes and the digest is \<open>bitlen / 8\<close> bytes. The staging
  array holds 168 bytes, the largest rate of the families of the file.
\<close>

definition sha3_generic_md :: PROV_SHA3_METHOD where
  "sha3_generic_md = \<lparr>absorb = Generic_absorb, final = Generic_final\<rparr>"

definition SHA3_newctx :: "byte \<Rightarrow> nat \<Rightarrow> KECCAK1600_CTX" where
  "SHA3_newctx pad_byte bitlen =
     \<lparr>A = replicate 25 0, block_size = (1600 - bitlen * 2) div 8, md_size = bitlen div 8,
      bufsz = 0, buf = replicate 168 0, pad = pad_byte, meth = sha3_generic_md\<rparr>"

text \<open>
  Contexts live in a heap of objects, one per address. \<open>keccak_dupctx\<close> is given the
  answer \<open>fresh\<close> of the allocation \<open>zalloc (typeof (*ret), 1)\<close>: \<open>NULL\<close> or the
  address of a new object; the allocation is asked only when the provider is running.
  The struct holds its arrays inline, so the assignment \<open>*ret = *in\<close> copies every
  field. It returns the pointer and the heap.
\<close>

definition keccak_dupctx ::
  "bool \<Rightarrow> nat option \<Rightarrow> (nat \<Rightarrow> KECCAK1600_CTX) \<Rightarrow> nat
     \<Rightarrow> nat option \<times> (nat \<Rightarrow> KECCAK1600_CTX)" where
  "keccak_dupctx running fresh h ctx =
     (let ret = (if running then fresh else None)
      in case ret of
           None \<Rightarrow> (None, h)
         | Some r \<Rightarrow> (Some r, h(r := h ctx)))"

definition one_ctx_heap :: "KECCAK1600_CTX \<Rightarrow> nat \<Rightarrow> KECCAK1600_CTX" where
  "one_ctx_heap c a = c"







subsection \<open>Initialisation and parameters\<close>

text \<open>
  Modelled from the spec: \<open>OSSL_PARAM\<close>, \<open>OSSL_PARAM_locate_const\<close> and
  \<open>OSSL_PARAM_get_size_t\<close> (crypto/params.c) are not among the files modelled here. Section 6: the
  parameters are a key/value list; a lookup finds the entry with the given key; a value
  that is not a size is malformed. An entry is a key and a typed value; a value converts
  to a \<open>size_t\<close> when it is an integer from 0 to \<open>2^64 - 1\<close>, and a failed conversion
  writes nothing. A \<open>NULL\<close> array is \<open>None\<close>.
\<close>

datatype OSSL_PARAM_value =
  UNSIGNED_INTEGER nat | INTEGER int | UTF8_STRING string | OCTET_STRING "byte list"

record OSSL_PARAM =
  param_key :: string
  param_data :: OSSL_PARAM_value

definition OSSL_DIGEST_PARAM_XOFLEN :: string where
  "OSSL_DIGEST_PARAM_XOFLEN = ''xoflen''"

definition OSSL_PARAM_locate_const :: "OSSL_PARAM list \<Rightarrow> string \<Rightarrow> OSSL_PARAM option" where
  "OSSL_PARAM_locate_const params k = find (\<lambda>p. param_key p = k) params"

definition OSSL_PARAM_get_size_t :: "OSSL_PARAM \<Rightarrow> nat option" where
  "OSSL_PARAM_get_size_t p =
     (case param_data p of
        UNSIGNED_INTEGER n \<Rightarrow> if n < 2 ^ 64 then Some n else None
      | INTEGER i \<Rightarrow> if 0 \<le> i \<and> i < 2 ^ 64 then Some (nat i) else None
      | _ \<Rightarrow> None)"

text \<open>
  \<open>shake_set_ctx_params\<close> returns its int, the error it raised and the context behind
  \<open>vctx\<close>.
\<close>

definition shake_set_ctx_params ::
  "KECCAK1600_CTX option \<Rightarrow> OSSL_PARAM list option
     \<Rightarrow> int \<times> prov_error option \<times> KECCAK1600_CTX option" where
  "shake_set_ctx_params vctx params =
     (case vctx of
        None \<Rightarrow> (0, None, None)
      | Some ctx \<Rightarrow>
          (case params of
             None \<Rightarrow> (1, None, vctx)
           | Some ps \<Rightarrow>
               (case OSSL_PARAM_locate_const ps OSSL_DIGEST_PARAM_XOFLEN of
                  None \<Rightarrow> (1, None, vctx)
                | Some p \<Rightarrow>
                    (case OSSL_PARAM_get_size_t p of
                       None \<Rightarrow> (0, Some PROV_R_FAILED_TO_GET_PARAMETER, vctx)
                     | Some n \<Rightarrow> (1, None, Some (ctx\<lparr>md_size := n\<rparr>))))))"

text \<open>
  Modelled from the spec: \<open>ossl_sha3_reset\<close> (crypto/sha/sha3.c) is not among the
  files modelled here. Section 4.3, state \<open>Created\<close>: the buffer is empty and the state is zeroed; the
  comment in \<open>keccak_init\<close> says the rest of the set-up is left as \<open>newctx\<close> made it.
\<close>

definition ossl_sha3_reset :: "KECCAK1600_CTX \<Rightarrow> KECCAK1600_CTX" where
  "ossl_sha3_reset ctx = ctx\<lparr>A := replicate (length (A ctx)) 0, bufsz := 0\<rparr>"

definition keccak_init ::
  "bool \<Rightarrow> KECCAK1600_CTX \<Rightarrow> OSSL_PARAM list option \<Rightarrow> int \<times> KECCAK1600_CTX" where
  "keccak_init running vctx params =
     (if \<not> running then (0, vctx) else (1, ossl_sha3_reset vctx))"

definition keccak_init_params ::
  "bool \<Rightarrow> KECCAK1600_CTX \<Rightarrow> OSSL_PARAM list option
     \<Rightarrow> int \<times> prov_error option \<times> KECCAK1600_CTX option" where
  "keccak_init_params running vctx params =
     (case keccak_init running vctx None of
        (r, ctx) \<Rightarrow>
          if r \<noteq> 0
          then (case shake_set_ctx_params (Some ctx) params of
                  (r', e, c) \<Rightarrow> (if r' \<noteq> 0 then 1 else 0, e, c))
          else (0, None, Some ctx))"

text \<open>The portable build has no hardware final function: a stand-in that fails.\<close>

definition no_hw_final ::
  "sha3_final_fn \<Rightarrow> byte list \<Rightarrow> KECCAK1600_CTX \<Rightarrow> int \<times> KECCAK1600_CTX \<times> byte list" where
  "no_hw_final t md ctx = (0, ctx, md)"

subsection \<open>What a sponge context means\<close>

text \<open>
  The bytes of the staging array that count are the first \<open>bufsz\<close>; the bytes from
  \<open>bufsz\<close> on are left over from earlier blocks. \<open>trailing b xs\<close> is what is left of
  \<open>xs\<close> after its whole \<open>b\<close>-byte blocks. Two contexts are the same sponge when they
  agree on everything but those left-over bytes.
\<close>

definition pending :: "KECCAK1600_CTX \<Rightarrow> byte list" where
  "pending ctx = take (bufsz ctx) (buf ctx)"

definition trailing :: "nat \<Rightarrow> byte list \<Rightarrow> byte list" where
  "trailing b xs = drop (length xs - length xs mod b) xs"

definition same_sponge :: "KECCAK1600_CTX \<Rightarrow> KECCAK1600_CTX \<Rightarrow> bool" where
  "same_sponge c1 c2 =
     (A c1 = A c2 \<and> bufsz c1 = bufsz c2 \<and> pending c1 = pending c2
      \<and> block_size c1 = block_size c2 \<and> md_size c1 = md_size c2
      \<and> pad c1 = pad c2 \<and> meth c1 = meth c2 \<and> length (buf c1) = length (buf c2))"

text \<open>
  \<open>sponge_step f ctx xs c'\<close>: the context \<open>c'\<close> is what absorbing the byte string
  \<open>xs\<close> (buffered bytes included) from the state of \<open>ctx\<close> leaves.
\<close>

definition sponge_step ::
  "(lane list \<Rightarrow> lane list) \<Rightarrow> KECCAK1600_CTX \<Rightarrow> byte list \<Rightarrow> KECCAK1600_CTX \<Rightarrow> bool" where
  "sponge_step f ctx xs c' =
     (ctx_wf c'
      \<and> A c' = fst (SHA3_absorb f (A ctx) xs (block_size ctx))
      \<and> pending c' = trailing (block_size ctx) xs
      \<and> block_size c' = block_size ctx \<and> md_size c' = md_size ctx
      \<and> pad c' = pad ctx \<and> meth c' = meth ctx
      \<and> length (buf c') = length (buf ctx))"

text \<open>
  The words of section 4.1 for the absorb contract, to compare the backends with: the
  input cut into \<open>r\<close>-byte blocks, each XOR-ed into the state and followed by one
  permutation.
\<close>

definition blocks_of :: "nat \<Rightarrow> byte list \<Rightarrow> byte list list" where
  "blocks_of r xs = map (\<lambda>i. take r (drop (i * r) xs)) [0..<length xs div r]"

definition absorb_blocks ::
  "(lane list \<Rightarrow> lane list) \<Rightarrow> nat \<Rightarrow> lane list \<Rightarrow> byte list \<Rightarrow> lane list" where
  "absorb_blocks f r st xs = foldl (\<lambda>s blk. f (xor_block s blk (r div 8))) st (blocks_of r xs)"

section \<open>Lemmas: the absorb loop and the buffering protocol\<close>

lemma SHA3_absorb_short:
  "length inp < r \<Longrightarrow> SHA3_absorb f st inp r = (st, length inp)"
  by (simp add: SHA3_absorb.simps)

lemma SHA3_absorb_snd:
  "0 < r \<Longrightarrow> snd (SHA3_absorb f st inp r) = length inp mod r"
proof (induction f st inp r rule: SHA3_absorb.induct)
  case (1 f st inp r)
  show ?case
  proof (cases "length inp < r")
    case True
    then show ?thesis by (simp add: SHA3_absorb_short)
  next
    case False
    with "1.prems" have step:
      "SHA3_absorb f st inp r
         = SHA3_absorb f (f (xor_block st (take r inp) (r div 8))) (drop r inp) r"
      by (subst SHA3_absorb.simps) simp
    from False "1.prems" have "snd (SHA3_absorb f (f (xor_block st (take r inp) (r div 8))) (drop r inp) r)
        = length (drop r inp) mod r"
      by (intro "1.IH") auto
    with False show ?thesis
      by (simp add: step le_mod_geq)
  qed
qed

lemma SHA3_absorb_append:
  "0 < r \<Longrightarrow> length xs mod r = 0 \<Longrightarrow>
   SHA3_absorb f st (xs @ ys) r = SHA3_absorb f (fst (SHA3_absorb f st xs r)) ys r"
proof (induction f st xs r rule: SHA3_absorb.induct)
  case (1 f st xs r)
  show ?case
  proof (cases "length xs < r")
    case True
    with "1.prems" have "xs = []" by simp
    then show ?thesis by (simp add: SHA3_absorb_short "1.prems")
  next
    case False
    let ?st = "f (xor_block st (take r xs) (r div 8))"
    from False "1.prems" have l: "SHA3_absorb f st xs r = SHA3_absorb f ?st (drop r xs) r"
      by (subst SHA3_absorb.simps) simp
    from False "1.prems" have r: "SHA3_absorb f st (xs @ ys) r = SHA3_absorb f ?st (drop r xs @ ys) r"
      by (subst SHA3_absorb.simps) simp
    from False "1.prems" have m: "length (drop r xs) mod r = 0"
      by (simp add: le_mod_geq)
    from False "1.prems" m have "SHA3_absorb f ?st (drop r xs @ ys) r
        = SHA3_absorb f (fst (SHA3_absorb f ?st (drop r xs) r)) ys r"
      by (intro "1.IH") auto
    then show ?thesis by (simp add: l r)
  qed
qed

lemma SHA3_absorb_take:
  assumes "0 < r"
  shows "fst (SHA3_absorb f st (take (length inp - length inp mod r) inp) r)
           = fst (SHA3_absorb f st inp r)"
proof -
  let ?k = "length inp - length inp mod r"
  have len: "length (take ?k inp) = ?k" by simp
  have al: "length (take ?k inp) mod r = 0"
    unfolding len by (simp add: minus_mod_eq_mult_div)
  have "SHA3_absorb f st (take ?k inp @ drop ?k inp) r
          = SHA3_absorb f (fst (SHA3_absorb f st (take ?k inp) r)) (drop ?k inp) r"
    by (rule SHA3_absorb_append [OF assms al])
  moreover have "length (drop ?k inp) < r"
    using assms by simp
  ultimately show ?thesis
    by (simp add: SHA3_absorb_short)
qed

lemma meth_absorb_eq:
  "0 < block_size ctx \<Longrightarrow>
   meth_absorb f ctx inp
     = (ctx\<lparr>A := fst (SHA3_absorb f (A ctx) inp (block_size ctx))\<rparr>,
        length inp mod block_size ctx)"
  using SHA3_absorb_snd [of "block_size ctx" f "A ctx" inp]
  by (cases "absorb (meth ctx)")
     (auto simp: meth_absorb_def generic_sha3_absorb_def s390x_sha3_absorb_def
        armsha3_sha3_absorb_def SHA3_absorb_cext_def s390x_kimd_def Let_def
        SHA3_absorb_take split: prod.splits)

lemma length_pending: "ctx_wf ctx \<Longrightarrow> length (pending ctx) = bufsz ctx"
  by (simp add: pending_def ctx_wf_def)

lemma keccak_update_empty: "keccak_update f ctx [] = (1, ctx)"
  by (simp add: keccak_update_def keccak_update_rest_def)

lemma keccak_update_append_buf:
  assumes "inp \<noteq> []" "bufsz ctx \<noteq> 0" "length inp < block_size ctx - bufsz ctx"
  shows "keccak_update f ctx inp
           = (1, ctx\<lparr>buf := memcpy (buf ctx) (bufsz ctx) inp (length inp),
                     bufsz := bufsz ctx + length inp\<rparr>)"
  using assms by (simp add: keccak_update_def keccak_update_rest_def Let_def)

lemma keccak_update_direct:
  assumes "inp \<noteq> []" "bufsz ctx = 0" "0 < block_size ctx"
  shows "snd (keccak_update f ctx inp)
           = (let st = fst (SHA3_absorb f (A ctx) inp (block_size ctx));
                  rem = length inp mod block_size ctx
              in if rem \<noteq> 0
                 then ctx\<lparr>A := st, buf := memcpy (buf ctx) 0 (drop (length inp - rem) inp) rem,
                          bufsz := rem\<rparr>
                 else ctx\<lparr>A := st\<rparr>)"
  using assms by (simp add: keccak_update_def keccak_update_rest_def Let_def meth_absorb_eq)

lemma keccak_update_fill:
  assumes "inp \<noteq> []" "bufsz ctx \<noteq> 0" "\<not> length inp < block_size ctx - bufsz ctx"
    "0 < block_size ctx"
  shows "snd (keccak_update f ctx inp)
           = (let bsz = block_size ctx;
                  b1 = memcpy (buf ctx) (bufsz ctx) inp (bsz - bufsz ctx);
                  st1 = fst (SHA3_absorb f (A ctx) (take bsz b1) bsz);
                  inp1 = drop (bsz - bufsz ctx) inp;
                  st2 = fst (SHA3_absorb f st1 inp1 bsz);
                  rem = length inp1 mod bsz
              in if rem \<noteq> 0
                 then ctx\<lparr>A := st2, buf := memcpy b1 0 (drop (length inp1 - rem) inp1) rem,
                          bufsz := rem\<rparr>
                 else ctx\<lparr>A := st2, buf := b1, bufsz := 0\<rparr>)"
  using assms by (simp add: keccak_update_def keccak_update_rest_def Let_def meth_absorb_eq)

lemma length_trailing: "0 < b \<Longrightarrow> length (trailing b xs) = length xs mod b"
  by (simp add: trailing_def)

lemma abs_empty:
  assumes "ctx_wf ctx"
  shows "sponge_step f ctx (pending ctx @ []) ctx"
  using assms
  by (simp add: sponge_step_def trailing_def length_pending SHA3_absorb_short ctx_wf_def)

lemma abs_append_buf:
  assumes "ctx_wf ctx" "bufsz ctx \<noteq> 0" "length inp < block_size ctx - bufsz ctx"
  shows "sponge_step f ctx (pending ctx @ inp)
           (ctx\<lparr>buf := memcpy (buf ctx) (bufsz ctx) inp (length inp),
                 bufsz := bufsz ctx + length inp\<rparr>)"
  using assms
  by (auto simp: sponge_step_def trailing_def length_pending SHA3_absorb_short ctx_wf_def
      pending_def memcpy_def)

lemma abs_direct:
  assumes "ctx_wf ctx" "bufsz ctx = 0" "inp \<noteq> []"
  shows "sponge_step f ctx (pending ctx @ inp) (snd (keccak_update f ctx inp))"
proof -
  have b: "0 < block_size ctx" using assms by (simp add: ctx_wf_def)
  have p: "pending ctx = []" using assms by (simp add: pending_def)
  have lt: "length inp mod block_size ctx < block_size ctx" using b by simp
  have le: "length inp mod block_size ctx \<le> length (buf ctx)"
    using assms lt by (simp add: ctx_wf_def)
  show ?thesis
    using assms b lt le
    by (simp add: keccak_update_direct p sponge_step_def Let_def trailing_def ctx_wf_def
        pending_def memcpy_def)
qed

lemma drop_length_add: "drop (length xs + k) (xs @ ys) = drop k ys"
  by simp

lemma length_drop_tail: "k \<le> length xs \<Longrightarrow> length (drop (length xs - k) xs) = k"
  by simp

lemma take_memcpy0: "length src = n \<Longrightarrow> take n (memcpy dst 0 src n) = src"
  by (simp add: memcpy_def)

lemma length_memcpy:
  "off + n \<le> length dst \<Longrightarrow> n \<le> length src \<Longrightarrow> length (memcpy dst off src n) = length dst"
  by (simp add: memcpy_def)

lemma abs_fill:
  assumes wf: "ctx_wf ctx" and nz: "bufsz ctx \<noteq> 0"
    and ge: "\<not> length inp < block_size ctx - bufsz ctx"
  shows "sponge_step f ctx (pending ctx @ inp) (snd (keccak_update f ctx inp))"
proof -
  let ?b = "block_size ctx" and ?n = "bufsz ctx"
  let ?rem = "?b - ?n"
  let ?b1 = "memcpy (buf ctx) ?n inp ?rem"
  let ?inp1 = "drop ?rem inp"
  let ?blk = "pending ctx @ take ?rem inp"
  let ?st1 = "fst (SHA3_absorb f (A ctx) ?blk ?b)"
  let ?r2 = "length ?inp1 mod ?b"
  from wf have b: "0 < ?b" and nb: "?n < ?b" and bl: "?b \<le> length (buf ctx)"
    by (simp_all add: ctx_wf_def)
  from ge nz nb have ne: "inp \<noteq> []" by auto
  have lp: "length (pending ctx) = ?n" by (rule length_pending [OF wf])
  have lblk: "length ?blk = ?b" using lp ge nb by simp
  have tk: "take ?b ?b1 = ?blk"
    using nb bl ge by (simp add: memcpy_def pending_def)
  have lb1: "length ?b1 = length (buf ctx)"
    using nb bl ge by (simp add: memcpy_def)
  have split: "pending ctx @ inp = ?blk @ ?inp1" by simp
  have ab: "SHA3_absorb f (A ctx) (pending ctx @ inp) ?b = SHA3_absorb f ?st1 ?inp1 ?b"
    unfolding split by (rule SHA3_absorb_append [OF b]) (simp only: lblk mod_self)
  have lx: "length (pending ctx @ inp) = ?b + length ?inp1"
    using lp ge nb by simp
  have md: "length (pending ctx @ inp) mod ?b = ?r2"
    unfolding lx by simp
  have tr: "trailing ?b (pending ctx @ inp) = drop (length ?inp1 - ?r2) ?inp1"
  proof -
    define m where "m = length ?inp1"
    have "m mod ?b \<le> m" by (rule mod_less_eq_dividend)
    then have "?b + m - m mod ?b = ?b + (m - m mod ?b)" by arith
    then have k: "length (pending ctx @ inp) - ?r2 = length ?blk + (length ?inp1 - ?r2)"
      unfolding lx lblk m_def .
    have "drop (length ?blk + (length ?inp1 - ?r2)) (?blk @ ?inp1)
            = drop (length ?inp1 - ?r2) ?inp1"
      by (rule drop_length_add)
    then show ?thesis
      unfolding trailing_def md k split [symmetric] .
  qed
  have r2lt: "?r2 < ?b" using b by simp
  have upd: "snd (keccak_update f ctx inp)
      = (if ?r2 \<noteq> 0
         then ctx\<lparr>A := fst (SHA3_absorb f ?st1 ?inp1 ?b),
                  buf := memcpy ?b1 0 (drop (length ?inp1 - ?r2) ?inp1) ?r2, bufsz := ?r2\<rparr>
         else ctx\<lparr>A := fst (SHA3_absorb f ?st1 ?inp1 ?b), buf := ?b1, bufsz := 0\<rparr>)"
    using keccak_update_fill [OF ne nz ge b, of f] by (simp add: Let_def tk)
  have le2: "?r2 \<le> length ?inp1" by (rule mod_less_eq_dividend)
  show ?thesis
  proof (cases "?r2 = 0")
    case True
    let ?c = "ctx\<lparr>A := fst (SHA3_absorb f ?st1 ?inp1 ?b), buf := ?b1, bufsz := 0\<rparr>"
    have c: "snd (keccak_update f ctx inp) = ?c" using True by (simp add: upd)
    have p: "pending ?c = trailing ?b (pending ctx @ inp)"
      unfolding tr using True by (simp add: pending_def)
    have a: "A ?c = fst (SHA3_absorb f (A ctx) (pending ctx @ inp) ?b)"
      unfolding ab by simp
    have w: "ctx_wf ?c" using b bl lb1 by (simp add: ctx_wf_def)
    show ?thesis
      unfolding c sponge_step_def using p a w lb1 by simp
  next
    case False
    let ?tl = "drop (length ?inp1 - ?r2) ?inp1"
    let ?c = "ctx\<lparr>A := fst (SHA3_absorb f ?st1 ?inp1 ?b),
                  buf := memcpy ?b1 0 ?tl ?r2, bufsz := ?r2\<rparr>"
    have c: "snd (keccak_update f ctx inp) = ?c" using False by (simp add: upd)
    have ltl: "length ?tl = ?r2" by (rule length_drop_tail [OF le2])
    have "take ?r2 (memcpy ?b1 0 ?tl ?r2) = ?tl"
      by (rule take_memcpy0 [OF ltl])
    then have p: "pending ?c = trailing ?b (pending ctx @ inp)"
      unfolding tr by (simp add: pending_def)
    have a: "A ?c = fst (SHA3_absorb f (A ctx) (pending ctx @ inp) ?b)"
      unfolding ab by simp
    have lb2: "length (memcpy ?b1 0 ?tl ?r2) = length (buf ctx)"
    proof -
      have "?r2 \<le> length ?b1" using r2lt bl lb1 by simp
      then have "length (memcpy ?b1 0 ?tl ?r2) = length ?b1"
        by (intro length_memcpy) (simp_all only: ltl add_0 order_refl)
      then show ?thesis by (simp only: lb1)
    qed
    have w: "ctx_wf ?c" using r2lt bl lb2 by (simp add: ctx_wf_def)
    show ?thesis
      unfolding c sponge_step_def using p a w lb2 by simp
  qed
qed

lemma keccak_update_abs:
  assumes "ctx_wf ctx"
  shows "sponge_step f ctx (pending ctx @ inp) (snd (keccak_update f ctx inp))"
proof (cases "inp = []")
  case True
  then show ?thesis using abs_empty [OF assms, of f] by (simp add: keccak_update_empty)
next
  case ne: False
  show ?thesis
  proof (cases "bufsz ctx = 0")
    case True
    then show ?thesis by (rule abs_direct [OF assms _ ne])
  next
    case nz: False
    show ?thesis
    proof (cases "length inp < block_size ctx - bufsz ctx")
      case True
      then show ?thesis
        using abs_append_buf [OF assms nz True, of f] keccak_update_append_buf [OF ne nz True, of f]
        by simp
    next
      case False
      then show ?thesis by (rule abs_fill [OF assms nz])
    qed
  qed
qed

lemma absorbed_trailing:
  assumes "0 < b"
  shows "fst (SHA3_absorb f st (u @ v) b)
           = fst (SHA3_absorb f (fst (SHA3_absorb f st u b)) (trailing b u @ v) b)"
proof -
  define k where "k = length u - length u mod b"
  have al: "length (take k u) mod b = 0"
    unfolding k_def by (simp add: minus_mod_eq_mult_div)
  have eq: "u @ v = take k u @ (trailing b u @ v)"
    unfolding k_def by (simp add: trailing_def)
  have "SHA3_absorb f st (u @ v) b = SHA3_absorb f st (take k u @ (trailing b u @ v)) b"
    by (subst eq) (rule refl)
  also have "\<dots> = SHA3_absorb f (fst (SHA3_absorb f st (take k u) b)) (trailing b u @ v) b"
    by (rule SHA3_absorb_append [OF assms al])
  finally show ?thesis
    unfolding k_def by (simp only: SHA3_absorb_take [OF assms])
qed

lemma trailing_trailing:
  assumes "0 < b"
  shows "trailing b (trailing b u @ v) = trailing b (u @ v)"
proof -
  define k where "k = length u - length u mod b"
  define w where "w = trailing b u @ v"
  define m where "m = length w"
  have lk: "length (take k u) = k" unfolding k_def by simp
  have "k mod b = 0" unfolding k_def by (simp add: minus_mod_eq_mult_div)
  then obtain q where kq: "k = b * q" by (auto simp: mod_eq_0_iff_dvd)
  have uv: "u @ v = take k u @ w" unfolding k_def w_def by (simp add: trailing_def)
  have luv: "length (u @ v) = k + m"
    unfolding m_def by (subst uv) (simp only: length_append lk)
  have md: "(k + m) mod b = m mod b"
    unfolding kq by simp
  have "m mod b \<le> m" by (rule mod_less_eq_dividend)
  then have "k + m - m mod b = k + (m - m mod b)" by arith
  then have e: "length (u @ v) - length (u @ v) mod b = length (take k u) + (m - m mod b)"
    unfolding luv md lk .
  have "drop (length (take k u) + (m - m mod b)) (take k u @ w) = drop (m - m mod b) w"
    by (rule drop_length_add)
  then have "drop (length (u @ v) - length (u @ v) mod b) (u @ v) = drop (m - m mod b) w"
    unfolding e uv [symmetric] .
  then show ?thesis
    unfolding trailing_def m_def w_def by simp
qed

lemma sponge_step_trans:
  assumes s1: "sponge_step f c u c1" and s2: "sponge_step f c1 (pending c1 @ v) c2"
  shows "sponge_step f c (u @ v) c2"
proof -
  from s1 have b: "0 < block_size c" by (auto simp: sponge_step_def ctx_wf_def)
  from s1 have e: "block_size c1 = block_size c" "A c1 = fst (SHA3_absorb f (A c) u (block_size c))"
    "pending c1 = trailing (block_size c) u"
    by (simp_all add: sponge_step_def)
  from s2 show ?thesis
    unfolding sponge_step_def e
    by (simp add: absorbed_trailing [OF b, symmetric] trailing_trailing [OF b])
      (use s1 in \<open>simp add: sponge_step_def\<close>)
qed

lemma keccak_update_all_abs:
  "ctx_wf ctx \<Longrightarrow>
   sponge_step f ctx (pending ctx @ concat chunks) (keccak_update_all f ctx chunks)"
proof (induction chunks arbitrary: ctx)
  case Nil
  then show ?case using abs_empty [of ctx f] by (simp add: keccak_update_all_def)
next
  case (Cons x xs)
  let ?c1 = "snd (keccak_update f ctx x)"
  have s1: "sponge_step f ctx (pending ctx @ x) ?c1"
    by (rule keccak_update_abs [OF Cons.prems])
  then have "ctx_wf ?c1" by (simp add: sponge_step_def)
  then have "sponge_step f ?c1 (pending ?c1 @ concat xs) (keccak_update_all f ?c1 xs)"
    by (rule Cons.IH)
  from sponge_step_trans [OF s1 this] show ?case
    by (simp add: keccak_update_all_def)
qed

lemma sponge_step_same:
  assumes "sponge_step f c xs c1" "sponge_step f c xs c2"
  shows "same_sponge c1 c2"
proof -
  from assms have "ctx_wf c1" "ctx_wf c2" by (simp_all add: sponge_step_def)
  then have "length (pending c1) = bufsz c1" "length (pending c2) = bufsz c2"
    by (simp_all only: length_pending)
  moreover from assms have "pending c1 = pending c2" by (simp add: sponge_step_def)
  ultimately have "bufsz c1 = bufsz c2" by simp
  with assms show ?thesis by (simp add: sponge_step_def same_sponge_def)
qed

lemma chunking_same_sponge:
  assumes "ctx_wf ctx"
  shows "same_sponge (keccak_update_all f ctx chunks) (snd (keccak_update f ctx (concat chunks)))"
  by (rule sponge_step_same [OF keccak_update_all_abs [OF assms] keccak_update_abs [OF assms]])

lemma keccak_update_ret: "fst (keccak_update f ctx inp) = 1"
  by (simp add: keccak_update_def keccak_update_rest_def Let_def split: prod.splits)

lemma keccak_update_keeps_invariant:
  assumes lt: "bufsz ctx < block_size ctx"
  shows "bufsz (snd (keccak_update f ctx inp)) < block_size ctx
         \<and> block_size (snd (keccak_update f ctx inp)) = block_size ctx"
proof (cases "inp = []")
  case True
  with lt show ?thesis by (simp add: keccak_update_empty)
next
  case ne: False
  from lt have b: "0 < block_size ctx" by simp
  show ?thesis
  proof (cases "bufsz ctx = 0")
    case True
    with b show ?thesis
      by (simp add: keccak_update_direct [OF ne True b] Let_def)
  next
    case nz: False
    show ?thesis
    proof (cases "length inp < block_size ctx - bufsz ctx")
      case True
      then show ?thesis
        by (simp add: keccak_update_append_buf [OF ne nz True])
    next
      case False
      with b show ?thesis
        by (simp add: keccak_update_fill [OF ne nz False b] Let_def)
    qed
  qed
qed

lemma blocks_of_step:
  assumes "0 < r" "r \<le> length xs"
  shows "blocks_of r xs = take r xs # blocks_of r (drop r xs)"
proof -
  have d: "length xs div r = Suc (length (drop r xs) div r)"
    using assms by (simp add: le_div_geq)
  show ?thesis
    unfolding blocks_of_def d map_upt_Suc
    by (simp add: add.commute)
qed

lemma SHA3_absorb_blocks:
  "0 < r \<Longrightarrow> fst (SHA3_absorb f st xs r) = absorb_blocks f r st xs"
proof (induction f st xs r rule: SHA3_absorb.induct)
  case (1 f st inp r)
  show ?case
  proof (cases "length inp < r")
    case True
    then show ?thesis
      by (simp add: SHA3_absorb_short absorb_blocks_def blocks_of_def)
  next
    case False
    with "1.prems" have step:
      "SHA3_absorb f st inp r
         = SHA3_absorb f (f (xor_block st (take r inp) (r div 8))) (drop r inp) r"
      by (subst SHA3_absorb.simps) simp
    from False "1.prems"
    have "fst (SHA3_absorb f (f (xor_block st (take r inp) (r div 8))) (drop r inp) r)
        = absorb_blocks f r (f (xor_block st (take r inp) (r div 8))) (drop r inp)"
      by (intro "1.IH") auto
    moreover from False "1.prems" have "blocks_of r inp = take r inp # blocks_of r (drop r inp)"
      by (intro blocks_of_step) auto
    ultimately show ?thesis
      by (simp add: step absorb_blocks_def)
  qed
qed

lemma absorb_contract_all:
  fixes f :: "lane list \<Rightarrow> lane list" and ctx :: KECCAK1600_CTX and inp :: "byte list"
  assumes b: "0 < block_size ctx"
  defines "res \<equiv> (ctx\<lparr>A := absorb_blocks f (block_size ctx) (A ctx)
                        (take (length inp - length inp mod block_size ctx) inp)\<rparr>,
                    length inp mod block_size ctx)"
  shows "generic_sha3_absorb f ctx inp = res" "s390x_sha3_absorb f ctx inp = res"
    "armsha3_sha3_absorb f ctx inp = res"
proof -
  have a: "fst (SHA3_absorb f (A ctx) inp (block_size ctx))
      = absorb_blocks f (block_size ctx) (A ctx)
          (take (length inp - length inp mod block_size ctx) inp)"
    by (subst SHA3_absorb_take [OF b, symmetric]) (rule SHA3_absorb_blocks [OF b])
  have s: "snd (SHA3_absorb f (A ctx) inp (block_size ctx)) = length inp mod block_size ctx"
    by (rule SHA3_absorb_snd [OF b])
  show "generic_sha3_absorb f ctx inp = res"
    by (simp add: generic_sha3_absorb_def res_def case_prod_beta a s)
  show "armsha3_sha3_absorb f ctx inp = res"
    by (simp add: armsha3_sha3_absorb_def SHA3_absorb_cext_def res_def case_prod_beta a s)
  show "s390x_sha3_absorb f ctx inp = res"
    by (simp add: s390x_sha3_absorb_def s390x_kimd_def res_def Let_def SHA3_absorb_blocks [OF b])
qed

lemma ossl_sha3_final_same:
  assumes "same_sponge c1 c2"
  shows "fst (ossl_sha3_final f md c1) = fst (ossl_sha3_final f md c2)"
    and "snd (snd (ossl_sha3_final f md c1)) = snd (snd (ossl_sha3_final f md c2))"
    and "A (fst (snd (ossl_sha3_final f md c1))) = A (fst (snd (ossl_sha3_final f md c2)))"
    and "md_size (fst (snd (ossl_sha3_final f md c1))) = md_size c1"
proof -
  from assms have p: "take (bufsz c1) (buf c1) = take (bufsz c2) (buf c2)"
    unfolding same_sponge_def pending_def by blast
  from assms have e: "A c1 = A c2" "bufsz c1 = bufsz c2" "block_size c1 = block_size c2"
    "md_size c1 = md_size c2" "pad c1 = pad c2"
    unfolding same_sponge_def by blast+
  show "fst (ossl_sha3_final f md c1) = fst (ossl_sha3_final f md c2)"
    unfolding ossl_sha3_final_def Let_def case_prod_beta p unfolding e by simp
  show "snd (snd (ossl_sha3_final f md c1)) = snd (snd (ossl_sha3_final f md c2))"
    unfolding ossl_sha3_final_def Let_def case_prod_beta p unfolding e by simp
  show "A (fst (snd (ossl_sha3_final f md c1))) = A (fst (snd (ossl_sha3_final f md c2)))"
    unfolding ossl_sha3_final_def Let_def case_prod_beta p unfolding e by (simp add: e)
  show "md_size (fst (snd (ossl_sha3_final f md c1))) = md_size c1"
    unfolding ossl_sha3_final_def Let_def case_prod_beta by simp
qed

lemma keccak_final_same:
  assumes s: "same_sponge c1 c2" and g1: "final (meth c1) = Generic_final"
  shows "fst (keccak_final f hw running c1 out outl outsz)
           = fst (keccak_final f hw running c2 out outl outsz)
         \<and> snd (snd (keccak_final f hw running c1 out outl outsz))
           = snd (snd (keccak_final f hw running c2 out outl outsz))"
proof -
  from s g1 have g2: "final (meth c2) = Generic_final" by (simp add: same_sponge_def)
  from s have m0: "md_size c1 = md_size c2" by (simp add: same_sponge_def)
  have m: "md_size (fst (snd (ossl_sha3_final f out c1)))
      = md_size (fst (snd (ossl_sha3_final f out c2)))"
    using ossl_sha3_final_same(4) [OF s] ossl_sha3_final_same(4) [of c2 c2]
    by (simp add: same_sponge_def m0)
  show ?thesis
    using ossl_sha3_final_same(1,2) [OF s, of f out] m m0
    by (simp add: keccak_final_def meth_final_def generic_sha3_final_def g1 g2
        case_prod_beta)
qed

lemma stale_chunked:
  "buf (keccak_update_all f (SHA3_newctx 6 512) [[1], replicate 72 1]) ! 1 = 1"
proof -
  let ?c0 = "SHA3_newctx 6 512"
  have v: "block_size ?c0 = 72" "bufsz ?c0 = 0" "buf ?c0 = replicate 168 0"
    by (simp_all add: SHA3_newctx_def)
  have c1: "snd (keccak_update f ?c0 [1])
      = ?c0\<lparr>A := fst (SHA3_absorb f (A ?c0) [1] 72), buf := 1 # replicate 167 0, bufsz := 1\<rparr>"
    by (subst keccak_update_direct) (simp_all add: v Let_def memcpy_def)
  let ?c1 = "?c0\<lparr>A := fst (SHA3_absorb f (A ?c0) [1] 72), buf := 1 # replicate 167 0, bufsz := 1\<rparr>"
  have "buf (snd (keccak_update f ?c1 (replicate 72 1))) ! 1 = 1"
    by (subst keccak_update_fill) (simp_all add: v Let_def memcpy_def nth_append)
  then show ?thesis
    by (simp add: keccak_update_all_def c1)
qed

lemma stale_whole:
  "buf (snd (keccak_update f (SHA3_newctx 6 512) (concat [[1], replicate 72 1]))) ! 1 = 0"
proof -
  let ?c0 = "SHA3_newctx 6 512"
  have v: "block_size ?c0 = 72" "bufsz ?c0 = 0" "buf ?c0 = replicate 168 0"
    by (simp_all add: SHA3_newctx_def)
  show ?thesis
    by (subst keccak_update_direct) (simp_all add: v Let_def memcpy_def nth_append)
qed

lemma absorb_one_block_of_sevens:
  "absorb_blocks id 136 (replicate 25 0) (replicate 136 7)
     = replicate 17 0x0707070707070707 @ replicate 8 0"
  by code_simp

lemma newctx_wf:
  "bitlen \<in> {128, 224, 256, 384, 512} \<Longrightarrow> ctx_wf (SHA3_newctx pad_byte bitlen)"
  by (auto simp: ctx_wf_def SHA3_newctx_def)

lemma keccak_update_wf:
  "ctx_wf ctx \<Longrightarrow> ctx_wf (snd (keccak_update f ctx inp))"
  using keccak_update_abs [of ctx f inp] by (simp add: sponge_step_def)

lemma set_params_accepts:
  assumes "OSSL_PARAM_locate_const ps OSSL_DIGEST_PARAM_XOFLEN = Some p"
    "OSSL_PARAM_get_size_t p = Some n"
  shows "shake_set_ctx_params (Some c) (Some ps) = (1, None, Some (c\<lparr>md_size := n\<rparr>))"
  using assms by (simp add: shake_set_ctx_params_def)

lemma find_filter_same: "find P (filter P xs) = find P xs"
  by (induction xs) auto

lemma locate_none:
  "(\<forall>p \<in> set ps. param_key p \<noteq> k) \<Longrightarrow> OSSL_PARAM_locate_const ps k = None"
  by (simp add: OSSL_PARAM_locate_const_def find_None_iff)

lemma locate_filter:
  "OSSL_PARAM_locate_const (filter (\<lambda>p. param_key p = k) ps) k = OSSL_PARAM_locate_const ps k"
  by (simp add: OSSL_PARAM_locate_const_def find_filter_same)

lemma set_params_ignores:
  "shake_set_ctx_params vctx (Some ps)
     = shake_set_ctx_params vctx
         (Some (filter (\<lambda>p. param_key p = OSSL_DIGEST_PARAM_XOFLEN) ps))"
  by (cases vctx) (simp_all add: shake_set_ctx_params_def locate_filter)

lemma locate_xoflen_single:
  "OSSL_PARAM_locate_const [\<lparr>param_key = ''xoflen'', param_data = v\<rparr>] OSSL_DIGEST_PARAM_XOFLEN
     = Some \<lparr>param_key = ''xoflen'', param_data = v\<rparr>"
  by (simp add: OSSL_PARAM_locate_const_def OSSL_DIGEST_PARAM_XOFLEN_def)

lemma shake_absorbed_three:
  "bufsz (snd (keccak_update id (SHA3_newctx 31 128) [1, 2, 3])) = 3"
proof -
  have b: "0 < block_size (SHA3_newctx 31 128)" by (simp add: SHA3_newctx_def)
  show ?thesis
    by (subst keccak_update_direct [OF _ _ b]) (simp_all add: SHA3_newctx_def Let_def)
qed

section \<open>Theorems: secure memory wrappers\<close>

text \<open>
  C10. For every size, \<open>CRYPTO_secure_malloc\<close> and \<open>CRYPTO_secure_zalloc\<close> compute the
  same result, which is exactly what the zeroing hardened allocation returns for that
  size (so the non-z variant returns zeroed memory whenever the z variant does), whatever
  the \<open>file\<close> and \<open>line\<close> arguments are. For every pointer and every size,
  \<open>CRYPTO_secure_clear_free\<close> leaves the heap that \<open>CRYPTO_secure_free\<close> leaves, which
  is what \<open>zhard_free\<close> leaves: the length is ignored and the wrapper wipes nothing itself.
\<close>

theorem secure_wrappers_coincide:
  "CRYPTO_secure_malloc zhard_alloc h num file line
     = CRYPTO_secure_zalloc zhard_alloc h num file' line'
   \<and> CRYPTO_secure_malloc zhard_alloc h num file line = zhard_alloc h num
   \<and> CRYPTO_secure_clear_free zhard_free h ptr num file line
     = CRYPTO_secure_free zhard_free h ptr file' line'
   \<and> CRYPTO_secure_clear_free zhard_free h ptr num file line
     = CRYPTO_secure_clear_free zhard_free h ptr num' file line
   \<and> CRYPTO_secure_clear_free zhard_free h ptr num file line = zhard_free h ptr"
  by (simp add: CRYPTO_secure_malloc_def CRYPTO_secure_zalloc_def
      CRYPTO_secure_free_def CRYPTO_secure_clear_free_def)

section \<open>Theorems: key exchange\<close>

lemma ecx_init_cases:
  "ecx_init ops running h (Some c) (Some k) = (r, e, c', h') \<Longrightarrow>
   (r = 0 \<and> c' = Some c) \<or>
   (r = 1 \<and> running \<and> key_keylen ops h k = keylen c
      \<and> fst (ossl_ecx_key_up_ref ops h k) \<and> c' = Some (c\<lparr>key := Some k\<rparr>))"
  by (auto simp: ecx_init_def split: if_splits prod.splits)

lemma ecx_set_peer_cases:
  "ecx_set_peer ops running h (Some c) (Some k) = (r, e, c', h') \<Longrightarrow>
   (r = 0 \<and> c' = Some c) \<or>
   (r = 1 \<and> running \<and> key_keylen ops h k = keylen c
      \<and> fst (ossl_ecx_key_up_ref ops h k) \<and> c' = Some (c\<lparr>peerkey := Some k\<rparr>))"
  by (auto simp: ecx_set_peer_def split: if_splits prod.splits)

lemma ecx_init_mismatch:
  "key_keylen ops h k \<noteq> keylen c \<Longrightarrow>
   ecx_init ops running h (Some c) (Some k)
     = (0, if running then Some ERR_R_INTERNAL_ERROR else None, Some c, h)"
  by (simp add: ecx_init_def)

lemma ecx_set_peer_mismatch:
  "key_keylen ops h k \<noteq> keylen c \<Longrightarrow>
   ecx_set_peer ops running h (Some c) (Some k)
     = (0, if running then Some ERR_R_INTERNAL_ERROR else None, Some c, h)"
  by (simp add: ecx_set_peer_def)

text \<open>
  C9. For every key-exchange context \<open>c\<close> and every candidate key \<open>k\<close>: when the key's
  length differs from the context's configured length, \<open>ecx_init\<close> and \<open>ecx_set_peer\<close>
  return 0 and leave the context (stored key and peer key) and the key heap (so also
  every reference count) as they were, without calling \<open>ossl_ecx_key_up_ref\<close>; and
  whenever either function returns a nonzero value, the lengths match and
  \<open>ossl_ecx_key_up_ref\<close> succeeded on the key.
\<close>

theorem ecx_keylen_mismatch_rejected:
  "(key_keylen ops h k \<noteq> keylen c \<longrightarrow>
      fst (ecx_init ops running h (Some c) (Some k)) = 0
      \<and> fst (snd (snd (ecx_init ops running h (Some c) (Some k)))) = Some c
      \<and> snd (snd (snd (ecx_init ops running h (Some c) (Some k)))) = h
      \<and> fst (ecx_set_peer ops running h (Some c) (Some k)) = 0
      \<and> fst (snd (snd (ecx_set_peer ops running h (Some c) (Some k)))) = Some c
      \<and> snd (snd (snd (ecx_set_peer ops running h (Some c) (Some k)))) = h)
   \<and> (fst (ecx_init ops running h (Some c) (Some k)) \<noteq> 0 \<longrightarrow>
        key_keylen ops h k = keylen c \<and> fst (ossl_ecx_key_up_ref ops h k))
   \<and> (fst (ecx_set_peer ops running h (Some c) (Some k)) \<noteq> 0 \<longrightarrow>
        key_keylen ops h k = keylen c \<and> fst (ossl_ecx_key_up_ref ops h k))"
proof (intro conjI impI)
  assume ne: "key_keylen ops h k \<noteq> keylen c"
  show "fst (ecx_init ops running h (Some c) (Some k)) = 0"
    and "fst (snd (snd (ecx_init ops running h (Some c) (Some k)))) = Some c"
    and "snd (snd (snd (ecx_init ops running h (Some c) (Some k)))) = h"
    by (simp_all add: ecx_init_mismatch [OF ne])
  show "fst (ecx_set_peer ops running h (Some c) (Some k)) = 0"
    and "fst (snd (snd (ecx_set_peer ops running h (Some c) (Some k)))) = Some c"
    and "snd (snd (snd (ecx_set_peer ops running h (Some c) (Some k)))) = h"
    by (simp_all add: ecx_set_peer_mismatch [OF ne])
next
  assume nz: "fst (ecx_init ops running h (Some c) (Some k)) \<noteq> 0"
  obtain r e c' h' where eq: "ecx_init ops running h (Some c) (Some k) = (r, e, c', h')"
    by (cases "ecx_init ops running h (Some c) (Some k)") auto
  from ecx_init_cases [OF eq] nz eq
  show "key_keylen ops h k = keylen c" and "fst (ossl_ecx_key_up_ref ops h k)"
    by auto
next
  assume nz: "fst (ecx_set_peer ops running h (Some c) (Some k)) \<noteq> 0"
  obtain r e c' h' where eq: "ecx_set_peer ops running h (Some c) (Some k) = (r, e, c', h')"
    by (cases "ecx_set_peer ops running h (Some c) (Some k)") auto
  from ecx_set_peer_cases [OF eq] nz eq
  show "key_keylen ops h k = keylen c" and "fst (ossl_ecx_key_up_ref ops h k)"
    by auto
qed

theorem ecx_keylen_mismatch_rejected_witness:
  "key_keylen refcount_ops two_keys 2 \<noteq> keylen \<lparr>keylen = 32, key = None, peerkey = None\<rparr>
   \<and> fst (ecx_init refcount_ops True two_keys
         (Some \<lparr>keylen = 32, key = None, peerkey = None\<rparr>) (Some 2)) = 0
   \<and> fst (snd (snd (ecx_set_peer refcount_ops True two_keys
         (Some \<lparr>keylen = 32, key = None, peerkey = None\<rparr>) (Some 2))))
       = Some \<lparr>keylen = 32, key = None, peerkey = None\<rparr>
   \<and> fst (ecx_init refcount_ops True two_keys
         (Some \<lparr>keylen = 32, key = None, peerkey = None\<rparr>) (Some 1)) \<noteq> 0
   \<and> fst (ecx_set_peer refcount_ops True two_keys
         (Some \<lparr>keylen = 32, key = None, peerkey = None\<rparr>) (Some 1)) \<noteq> 0
   \<and> key_keylen refcount_ops two_keys 1 = keylen \<lparr>keylen = 32, key = None, peerkey = None\<rparr>
   \<and> fst (ossl_ecx_key_up_ref refcount_ops two_keys 1)"
proof -
  let ?c = "\<lparr>keylen = 32, key = None, peerkey = None\<rparr>"
  have ne: "key_keylen refcount_ops two_keys 2 \<noteq> keylen ?c"
    by (simp add: refcount_ops_def two_keys_def)
  have ok1: "fst (ecx_init refcount_ops True two_keys (Some ?c) (Some 1)) \<noteq> 0"
    by (simp add: ecx_init_def refcount_ops_def two_keys_def)
  have ok2: "fst (ecx_set_peer refcount_ops True two_keys (Some ?c) (Some 1)) \<noteq> 0"
    by (simp add: ecx_set_peer_def refcount_ops_def two_keys_def)
  from ne ok1 ok2
    ecx_keylen_mismatch_rejected [of refcount_ops two_keys 2 ?c True]
    ecx_keylen_mismatch_rejected [of refcount_ops two_keys 1 ?c True]
  show ?thesis by blast
qed

section \<open>Theorems: the sponge engine\<close>

text \<open>
  C2. For every context whose buffer count satisfies \<open>bufsz < block_size\<close> before the
  call (and whose block size fits the staging array, as every family's does), and every
  input, \<open>keccak_update\<close> returns 1 and leaves a context that again satisfies
  \<open>bufsz < block_size\<close>, with the block size and the rest of the configuration
  unchanged. Every full block of the buffered bytes followed by the input has been
  absorbed into the permutation state \<open>A\<close>, in order; only the bytes after the last
  full block stay in the staging buffer, and \<open>bufsz\<close> is their number.
\<close>

theorem keccak_update_bufsz_invariant:
  "ctx_wf ctx \<Longrightarrow>
   (let c' = snd (keccak_update f ctx inp); b = block_size ctx;
        xs = pending ctx @ inp; n = length xs
    in ctx_wf c'
       \<and> bufsz c' < block_size c'
       \<and> block_size c' = b
       \<and> fst (keccak_update f ctx inp) = 1
       \<and> A c' = absorb_blocks f b (A ctx) (take (n - n mod b) xs)
       \<and> bufsz c' = n mod b
       \<and> pending c' = drop (n - n mod b) xs
       \<and> md_size c' = md_size ctx \<and> pad c' = pad ctx \<and> meth c' = meth ctx
       \<and> length (buf c') = length (buf ctx))"
proof -
  assume wf: "ctx_wf ctx"
  let ?c = "snd (keccak_update f ctx inp)"
  let ?xs = "pending ctx @ inp"
  from wf have b: "0 < block_size ctx" by (simp add: ctx_wf_def)
  have s: "sponge_step f ctx ?xs ?c" by (rule keccak_update_abs [OF wf])
  then have w: "ctx_wf ?c" by (simp add: sponge_step_def)
  have a: "A ?c = absorb_blocks f (block_size ctx) (A ctx)
      (take (length ?xs - length ?xs mod block_size ctx) ?xs)"
  proof -
    from s have "A ?c = fst (SHA3_absorb f (A ctx) ?xs (block_size ctx))"
      by (simp add: sponge_step_def)
    also have "\<dots> = fst (SHA3_absorb f (A ctx)
        (take (length ?xs - length ?xs mod block_size ctx) ?xs) (block_size ctx))"
      by (rule SHA3_absorb_take [OF b, symmetric])
    also have "\<dots> = absorb_blocks f (block_size ctx) (A ctx)
        (take (length ?xs - length ?xs mod block_size ctx) ?xs)"
      by (rule SHA3_absorb_blocks [OF b])
    finally show ?thesis .
  qed
  from s have p: "pending ?c = trailing (block_size ctx) ?xs" by (simp add: sponge_step_def)
  have n: "bufsz ?c = length ?xs mod block_size ctx"
    using length_pending [OF w] length_trailing [OF b, of ?xs] p by simp
  from w have lt: "bufsz ?c < block_size ?c" by (simp add: ctx_wf_def)
  from s have r: "block_size ?c = block_size ctx" "md_size ?c = md_size ctx" "pad ?c = pad ctx"
    "meth ?c = meth ctx" "length (buf ?c) = length (buf ctx)"
    by (simp_all add: sponge_step_def)
  from p have p': "pending ?c = drop (length ?xs - length ?xs mod block_size ctx) ?xs"
    by (simp only: trailing_def)
  show ?thesis
    unfolding Let_def using w lt r keccak_update_ret [of f ctx inp] a n p' by blast
qed

theorem keccak_update_bufsz_invariant_witness:
  "ctx_wf (SHA3_newctx 6 256)
   \<and> bufsz (snd (keccak_update id (SHA3_newctx 6 256) (replicate 200 7)))
       < block_size (snd (keccak_update id (SHA3_newctx 6 256) (replicate 200 7)))
   \<and> bufsz (snd (keccak_update id (SHA3_newctx 6 256) (replicate 200 7))) = 64
   \<and> pending (snd (keccak_update id (SHA3_newctx 6 256) (replicate 200 7))) = replicate 64 7
   \<and> A (SHA3_newctx 6 256) = replicate 25 0
   \<and> A (snd (keccak_update id (SHA3_newctx 6 256) (replicate 200 7)))
       = replicate 17 0x0707070707070707 @ replicate 8 0"
proof -
  have wf: "ctx_wf (SHA3_newctx 6 256)"
    by (simp add: ctx_wf_def SHA3_newctx_def)
  have v: "block_size (SHA3_newctx 6 256) = 136" "A (SHA3_newctx 6 256) = replicate 25 0"
    "pending (SHA3_newctx 6 256) = []"
    by (simp_all add: SHA3_newctx_def pending_def)
  from keccak_update_bufsz_invariant [OF wf, of id "replicate 200 7"] wf show ?thesis
    by (simp add: Let_def v absorb_one_block_of_sevens)
qed

text \<open>
  C5. For every context with a positive block size \<open>b\<close> and every input of length
  \<open>len\<close>, each absorb function of the file (generic, s390x, ARMv8.2), and so the bound
  one, leaves the state that absorbing the blocks of the longest \<open>b\<close>-aligned prefix of
  the input gives, changes nothing else in the context, and returns \<open>len mod b\<close>, which
  is less than \<open>b\<close>; the prefix and the leftover make up the input.
\<close>

theorem absorb_contract:
  "0 < block_size ctx \<Longrightarrow>
   (let b = block_size ctx; len = length inp; leftover = len mod b;
        res = (ctx\<lparr>A := absorb_blocks f b (A ctx) (take (len - leftover) inp)\<rparr>, leftover)
    in generic_sha3_absorb f ctx inp = res
       \<and> s390x_sha3_absorb f ctx inp = res
       \<and> armsha3_sha3_absorb f ctx inp = res
       \<and> meth_absorb f ctx inp = res
       \<and> leftover < b
       \<and> (len - leftover) mod b = 0
       \<and> (len - leftover) + leftover = len)"
proof -
  assume b: "0 < block_size ctx"
  have "meth_absorb f ctx inp
      = (ctx\<lparr>A := absorb_blocks f (block_size ctx) (A ctx)
                  (take (length inp - length inp mod block_size ctx) inp)\<rparr>,
         length inp mod block_size ctx)"
    by (cases "absorb (meth ctx)") (simp_all add: meth_absorb_def absorb_contract_all [OF b])
  with b show ?thesis
    by (simp add: Let_def absorb_contract_all [OF b] minus_mod_eq_mult_div)
qed

theorem absorb_contract_witness:
  "0 < block_size (SHA3_newctx 6 256)
   \<and> snd (generic_sha3_absorb id (SHA3_newctx 6 256) (replicate 300 1)) = 28
   \<and> snd (s390x_sha3_absorb id (SHA3_newctx 6 256) (replicate 300 1)) = 28
   \<and> fst (meth_absorb id (SHA3_newctx 6 256) (replicate 300 1))
       = (SHA3_newctx 6 256)
           \<lparr>A := absorb_blocks id 136 (replicate 25 0) (replicate 272 1)\<rparr>"
proof -
  have b: "0 < block_size (SHA3_newctx 6 256)" by (simp add: SHA3_newctx_def)
  have v: "block_size (SHA3_newctx 6 256) = 136" "A (SHA3_newctx 6 256) = replicate 25 0"
    by (simp_all add: SHA3_newctx_def)
  from absorb_contract [OF b, of "replicate 300 1" id] b show ?thesis
    by (simp add: Let_def v)
qed

text \<open>
  C1 (as amended). For every context with \<open>bufsz < block_size \<le> sizeof buf\<close> (every
  family's new context is one, \<open>newctx_wf\<close>, and \<open>keccak_update\<close> keeps it so,
  \<open>keccak_update_wf\<close>), every input and every way of splitting it into chunks, applying \<open>keccak_update\<close> to the
  chunks in order leaves the same sponge as applying it once to the whole input: the same
  permutation state, buffer count, buffered bytes (the first \<open>bufsz\<close> bytes of the
  staging array) and configuration. The bytes of the staging array from \<open>bufsz\<close> on may
  differ. The final digest is identical: the generic final function returns the same int
  and the same output for both, and so does \<open>keccak_final\<close> on a context bound to it.
\<close>

theorem chunking_transparent:
  "ctx_wf ctx \<Longrightarrow>
   (let c1 = keccak_update_all f ctx chunks;
        c2 = snd (keccak_update f ctx (concat chunks))
    in same_sponge c1 c2
       \<and> fst (generic_sha3_final f md c1) = fst (generic_sha3_final f md c2)
       \<and> snd (snd (generic_sha3_final f md c1)) = snd (snd (generic_sha3_final f md c2))
       \<and> (final (meth ctx) = Generic_final \<longrightarrow>
            fst (keccak_final f hw running c1 md outl outsz)
              = fst (keccak_final f hw running c2 md outl outsz)
            \<and> snd (snd (keccak_final f hw running c1 md outl outsz))
              = snd (snd (keccak_final f hw running c2 md outl outsz))))"
proof -
  assume wf: "ctx_wf ctx"
  let ?c1 = "keccak_update_all f ctx chunks"
  let ?c2 = "snd (keccak_update f ctx (concat chunks))"
  have s: "same_sponge ?c1 ?c2" by (rule chunking_same_sponge [OF wf])
  have m: "meth ?c1 = meth ctx"
    using keccak_update_all_abs [OF wf, of f chunks] by (simp add: sponge_step_def)
  have g: "fst (generic_sha3_final f md ?c1) = fst (generic_sha3_final f md ?c2)"
    "snd (snd (generic_sha3_final f md ?c1)) = snd (snd (generic_sha3_final f md ?c2))"
    unfolding generic_sha3_final_def by (rule ossl_sha3_final_same [OF s])+
  have k: "final (meth ctx) = Generic_final \<Longrightarrow>
      fst (keccak_final f hw running ?c1 md outl outsz)
        = fst (keccak_final f hw running ?c2 md outl outsz)
      \<and> snd (snd (keccak_final f hw running ?c1 md outl outsz))
        = snd (snd (keccak_final f hw running ?c2 md outl outsz))"
    by (rule keccak_final_same [OF s]) (simp add: m)
  from s g k show ?thesis
    unfolding Let_def by blast
qed

theorem chunking_transparent_witness:
  "ctx_wf (SHA3_newctx 6 256)
   \<and> final (meth (SHA3_newctx 6 256)) = Generic_final
   \<and> same_sponge (keccak_update_all id (SHA3_newctx 6 256) [[1, 2], [3]])
        (snd (keccak_update id (SHA3_newctx 6 256) (concat [[1, 2], [3]])))
   \<and> snd (snd (keccak_final id no_hw_final True
          (keccak_update_all id (SHA3_newctx 6 256) [[1, 2], [3]]) (replicate 32 0) 0 32))
     = snd (snd (keccak_final id no_hw_final True
          (snd (keccak_update id (SHA3_newctx 6 256) (concat [[1, 2], [3]]))) (replicate 32 0) 0 32))"
proof -
  have wf: "ctx_wf (SHA3_newctx 6 256)"
    by (simp add: ctx_wf_def SHA3_newctx_def)
  have g: "final (meth (SHA3_newctx 6 256)) = Generic_final"
    by (simp add: SHA3_newctx_def sha3_generic_md_def)
  from wf g
    chunking_transparent [OF wf, of id "[[1, 2], [3]]" "replicate 32 0" no_hw_final True 0 32]
  show ?thesis
    unfolding Let_def by blast
qed

text \<open>
  C1 as stated fails: a SHA3-512 context (rate 72) fed one byte and then 72 bytes is
  not the context fed the same 73 bytes in one call. Byte 1 of the staging array is the
  second byte of the absorbed block in the first and still zero in the second; both have
  \<open>bufsz = 1\<close>, so that byte is never read again. The staging array does not depend
  on the permutation (\<open>stale_chunked\<close> and \<open>stale_whole\<close> hold for every \<open>f\<close>);
  the identity stands for it here.
\<close>

theorem chunking_changes_stale_bytes:
  "ctx_wf (SHA3_newctx 6 512)
   \<and> buf (keccak_update_all id (SHA3_newctx 6 512) [[1], replicate 72 1]) ! 1 = 1
   \<and> buf (snd (keccak_update id (SHA3_newctx 6 512) (concat [[1], replicate 72 1]))) ! 1 = 0
   \<and> keccak_update_all id (SHA3_newctx 6 512) [[1], replicate 72 1]
       \<noteq> snd (keccak_update id (SHA3_newctx 6 512) (concat [[1], replicate 72 1]))"
proof -
  have wf: "ctx_wf (SHA3_newctx 6 512)"
    by (simp add: ctx_wf_def SHA3_newctx_def)
  have a: "buf (keccak_update_all id (SHA3_newctx 6 512) [[1], replicate 72 1]) ! 1 = 1"
    by (rule stale_chunked)
  have b: "buf (snd (keccak_update id (SHA3_newctx 6 512) (concat [[1], replicate 72 1]))) ! 1 = 0"
    by (rule stale_whole)
  have "keccak_update_all id (SHA3_newctx 6 512) [[1], replicate 72 1]
       \<noteq> snd (keccak_update id (SHA3_newctx 6 512) (concat [[1], replicate 72 1]))"
  proof
    assume "keccak_update_all id (SHA3_newctx 6 512) [[1], replicate 72 1]
       = snd (keccak_update id (SHA3_newctx 6 512) (concat [[1], replicate 72 1]))"
    then have "buf (keccak_update_all id (SHA3_newctx 6 512) [[1], replicate 72 1]) ! 1
       = buf (snd (keccak_update id (SHA3_newctx 6 512) (concat [[1], replicate 72 1]))) ! 1"
      by (rule arg_cong)
    then have "(1 :: byte) = 0" by (simp only: a b)
    then show False by simp
  qed
  with wf a b show ?thesis by blast
qed

text \<open>
  C3 (as amended). For every source context, \<open>keccak_dupctx\<close> either fails, returning
  \<open>NULL\<close> and leaving the heap as it was, or returns the address the allocation gave,
  where the heap now holds a copy equal to the source in every field (permutation state,
  staging array, buffered count, block size, digest size, padding byte, method pair),
  every other object being untouched. It fails exactly when the provider is not running
  or the allocation fails. When the new address is not the source's, the two share
  nothing: updating either leaves the other as the source was, and each update gives what
  it would have given on the source alone.
\<close>

theorem keccak_dupctx_copy_or_fail:
  "(fst (keccak_dupctx running fresh h src) = None) = (\<not> running \<or> fresh = None)
   \<and> (fst (keccak_dupctx running fresh h src) = None \<longrightarrow>
        snd (keccak_dupctx running fresh h src) = h)
   \<and> (\<forall>r. fst (keccak_dupctx running fresh h src) = Some r \<longrightarrow>
          running \<and> fresh = Some r
          \<and> snd (keccak_dupctx running fresh h src) r = h src
          \<and> (\<forall>p. p \<noteq> r \<longrightarrow> snd (keccak_dupctx running fresh h src) p = h p)
          \<and> (r \<noteq> src \<longrightarrow>
               (let h' = snd (keccak_dupctx running fresh h src)
                in (h'(r := snd (keccak_update f (h' r) x))) src = h src
                   \<and> (h'(src := snd (keccak_update f (h' src) y))) r = h src
                   \<and> snd (keccak_update f (h' r) x) = snd (keccak_update f (h src) x)
                   \<and> snd (keccak_update f (h' src) y) = snd (keccak_update f (h src) y))))"
  by (auto simp: keccak_dupctx_def Let_def split: option.splits)

theorem keccak_dupctx_copy_or_fail_witness:
  "fst (keccak_dupctx True (Some 1) (one_ctx_heap (SHA3_newctx 6 256)) 0) = Some 1
   \<and> (1 :: nat) \<noteq> 0
   \<and> snd (keccak_dupctx True (Some 1) (one_ctx_heap (SHA3_newctx 6 256)) 0) 1
       = one_ctx_heap (SHA3_newctx 6 256) 0
   \<and> ((snd (keccak_dupctx True (Some 1) (one_ctx_heap (SHA3_newctx 6 256)) 0))
         (1 := snd (keccak_update id
                 (snd (keccak_dupctx True (Some 1) (one_ctx_heap (SHA3_newctx 6 256)) 0) 1)
                 [1, 2]))) 0
       = one_ctx_heap (SHA3_newctx 6 256) 0
   \<and> (2 :: nat) \<noteq> 1
   \<and> snd (keccak_dupctx True (Some 1) (one_ctx_heap (SHA3_newctx 6 256)) 0) 2
       = one_ctx_heap (SHA3_newctx 6 256) 2
   \<and> fst (keccak_dupctx True None (one_ctx_heap (SHA3_newctx 6 256)) 0) = None
   \<and> snd (keccak_dupctx True None (one_ctx_heap (SHA3_newctx 6 256)) 0)
       = one_ctx_heap (SHA3_newctx 6 256)"
proof -
  let ?h = "one_ctx_heap (SHA3_newctx 6 256)"
  have a: "fst (keccak_dupctx True (Some 1) ?h 0) = Some 1"
    by (simp add: keccak_dupctx_def)
  have b: "fst (keccak_dupctx True None ?h 0) = None"
    by (simp add: keccak_dupctx_def)
  have n: "(1 :: nat) \<noteq> 0" "(2 :: nat) \<noteq> 1" by simp_all
  from a b n
    keccak_dupctx_copy_or_fail [of True "Some 1" ?h 0 id "[1, 2]" "[]"]
    keccak_dupctx_copy_or_fail [of True None ?h 0 id "[]" "[]"]
  show ?thesis
    unfolding Let_def by blast
qed

text \<open>
  C3 as stated fails: with the provider not running, \<open>keccak_dupctx\<close> returns \<open>NULL\<close>
  although no allocation failed (none was asked for; it would have given address 1).
\<close>

theorem keccak_dupctx_fails_when_not_running:
  "keccak_dupctx False (Some 1) (one_ctx_heap (SHA3_newctx 6 256)) 0
     = (None, one_ctx_heap (SHA3_newctx 6 256))"
  by (simp add: keccak_dupctx_def)

text \<open>
  C4 (as amended). For every context, \<open>keccak_final\<close> with output size 0 calls no
  backend final function (its result does not depend on the backend or the
  permutation), writes nothing to the output array and leaves the context unchanged.
  When the provider is running it returns 1 and stores the context's \<open>md_size\<close> in
  \<open>*outl\<close>, whatever that size is; when the provider is not running it returns 0 and
  leaves \<open>*outl\<close> as it was.
\<close>

theorem keccak_final_outsz_zero:
  "keccak_final f hw running ctx out outl 0
     = (if running then (1, ctx, out, md_size ctx) else (0, ctx, out, outl))
   \<and> keccak_final f hw running ctx out outl 0 = keccak_final f' hw' running ctx out outl 0"
  by (simp add: keccak_final_def)

text \<open>
  C4 as stated fails: on a fresh SHA3-256 context with the provider running, a final
  call with output size 0 writes none of the 32 bytes of the output array and reports 32
  bytes through \<open>*outl\<close>.
\<close>

theorem keccak_final_outsz_zero_reports_md_size:
  "keccak_final id no_hw_final True (SHA3_newctx 6 256) (replicate 32 170) 0 0
     = (1, SHA3_newctx 6 256, replicate 32 170, 32)"
  by (simp add: keccak_final_def SHA3_newctx_def)

text \<open>
  C6 (as amended). For every XOF context, whatever input has been absorbed into it,
  \<open>shake_set_ctx_params\<close> accepts an output length: a parameter list whose
  output-length entry converts to the size \<open>n\<close> makes the call return 1 and set
  \<open>md_size\<close> to \<open>n\<close>, leaving the absorbed state (permutation state, staging buffer and
  its count) and the rest of the configuration as they are; a further call is accepted
  in the same way and overwrites the length again.
\<close>

theorem xoflen_set_at_any_time:
  "OSSL_PARAM_locate_const ps OSSL_DIGEST_PARAM_XOFLEN = Some p \<Longrightarrow>
   OSSL_PARAM_get_size_t p = Some n \<Longrightarrow>
   OSSL_PARAM_locate_const ps' OSSL_DIGEST_PARAM_XOFLEN = Some p' \<Longrightarrow>
   OSSL_PARAM_get_size_t p' = Some n' \<Longrightarrow>
   (let c = keccak_update_all f ctx chunks
    in shake_set_ctx_params (Some c) (Some ps) = (1, None, Some (c\<lparr>md_size := n\<rparr>))
       \<and> shake_set_ctx_params (Some (c\<lparr>md_size := n\<rparr>)) (Some ps')
           = (1, None, Some (c\<lparr>md_size := n'\<rparr>))
       \<and> md_size (c\<lparr>md_size := n\<rparr>) = n
       \<and> A (c\<lparr>md_size := n\<rparr>) = A c
       \<and> buf (c\<lparr>md_size := n\<rparr>) = buf c
       \<and> bufsz (c\<lparr>md_size := n\<rparr>) = bufsz c
       \<and> block_size (c\<lparr>md_size := n\<rparr>) = block_size c
       \<and> pad (c\<lparr>md_size := n\<rparr>) = pad c
       \<and> meth (c\<lparr>md_size := n\<rparr>) = meth c)"
  by (simp add: Let_def set_params_accepts)

theorem xoflen_set_at_any_time_witness:
  "OSSL_PARAM_locate_const [\<lparr>param_key = ''xoflen'', param_data = UNSIGNED_INTEGER 64\<rparr>]
       OSSL_DIGEST_PARAM_XOFLEN
     = Some \<lparr>param_key = ''xoflen'', param_data = UNSIGNED_INTEGER 64\<rparr>
   \<and> OSSL_PARAM_get_size_t \<lparr>param_key = ''xoflen'', param_data = UNSIGNED_INTEGER 64\<rparr> = Some 64
   \<and> OSSL_PARAM_locate_const [\<lparr>param_key = ''xoflen'', param_data = INTEGER 32\<rparr>]
       OSSL_DIGEST_PARAM_XOFLEN
     = Some \<lparr>param_key = ''xoflen'', param_data = INTEGER 32\<rparr>
   \<and> OSSL_PARAM_get_size_t \<lparr>param_key = ''xoflen'', param_data = INTEGER 32\<rparr> = Some 32
   \<and> shake_set_ctx_params
         (Some ((keccak_update_all id (SHA3_newctx 31 128) [[1, 2, 3]])\<lparr>md_size := 64\<rparr>))
         (Some [\<lparr>param_key = ''xoflen'', param_data = INTEGER 32\<rparr>])
       = (1, None, Some ((keccak_update_all id (SHA3_newctx 31 128) [[1, 2, 3]])\<lparr>md_size := 32\<rparr>))"
proof -
  have a: "OSSL_PARAM_get_size_t \<lparr>param_key = ''xoflen'', param_data = UNSIGNED_INTEGER 64\<rparr>
      = Some 64"
    by (simp add: OSSL_PARAM_get_size_t_def)
  have b: "OSSL_PARAM_get_size_t \<lparr>param_key = ''xoflen'', param_data = INTEGER 32\<rparr> = Some 32"
    by (simp add: OSSL_PARAM_get_size_t_def)
  from a b
    xoflen_set_at_any_time [OF locate_xoflen_single a locate_xoflen_single b,
      of id "SHA3_newctx 31 128" "[[1, 2, 3]]"]
  show ?thesis
    unfolding Let_def by (simp add: locate_xoflen_single)
qed

text \<open>
  C6 as stated fails: a SHAKE128 context that has absorbed three bytes (they sit in the
  staging buffer) takes a new output length of 64; the call returns 1.
\<close>

theorem xoflen_accepted_after_absorb:
  "bufsz (snd (keccak_update id (SHA3_newctx 31 128) [1, 2, 3])) = 3
   \<and> shake_set_ctx_params (Some (snd (keccak_update id (SHA3_newctx 31 128) [1, 2, 3])))
       (Some [\<lparr>param_key = ''xoflen'', param_data = UNSIGNED_INTEGER 64\<rparr>])
     = (1, None, Some ((snd (keccak_update id (SHA3_newctx 31 128) [1, 2, 3]))\<lparr>md_size := 64\<rparr>))"
proof -
  have "OSSL_PARAM_get_size_t \<lparr>param_key = ''xoflen'', param_data = UNSIGNED_INTEGER 64\<rparr>
      = Some 64"
    by (simp add: OSSL_PARAM_get_size_t_def)
  then show ?thesis
    by (simp add: set_params_accepts [OF locate_xoflen_single] shake_absorbed_three)
qed

text \<open>
  C7 (as amended). For every XOF context and every parameter list: entries whose key is
  not the output-length key have no effect on \<open>shake_set_ctx_params\<close> (the call gives
  what it gives on the list without them). When no entry has the output-length key,
  \<open>shake_set_ctx_params\<close> returns 1 and leaves the context unchanged; when the
  output-length entry found does not convert to a size, it returns 0, raises
  \<open>PROV_R_FAILED_TO_GET_PARAMETER\<close> and leaves the context, so its digest size,
  unchanged. Initialisation with such a list does the same on the context it has reset
  (the reset keeps the digest size) when the provider is running, and returns 0 without
  touching the context when the provider is not running.
\<close>

theorem shake_params_ignored_or_rejected:
  "((\<forall>p \<in> set ps. param_key p \<noteq> OSSL_DIGEST_PARAM_XOFLEN) \<longrightarrow>
      shake_set_ctx_params (Some ctx) (Some ps) = (1, None, Some ctx)
      \<and> keccak_init_params running ctx (Some ps)
          = (if running then (1, None, Some (ossl_sha3_reset ctx)) else (0, None, Some ctx)))
   \<and> (OSSL_PARAM_locate_const ps OSSL_DIGEST_PARAM_XOFLEN = Some p
        \<and> OSSL_PARAM_get_size_t p = None \<longrightarrow>
      shake_set_ctx_params (Some ctx) (Some ps)
          = (0, Some PROV_R_FAILED_TO_GET_PARAMETER, Some ctx)
      \<and> keccak_init_params running ctx (Some ps)
          = (if running then (0, Some PROV_R_FAILED_TO_GET_PARAMETER, Some (ossl_sha3_reset ctx))
             else (0, None, Some ctx)))
   \<and> md_size (ossl_sha3_reset ctx) = md_size ctx
   \<and> shake_set_ctx_params (Some ctx) (Some ps)
       = shake_set_ctx_params (Some ctx)
           (Some (filter (\<lambda>p. param_key p = OSSL_DIGEST_PARAM_XOFLEN) ps))"
  using set_params_ignores [of "Some ctx" ps]
  by (auto simp: shake_set_ctx_params_def keccak_init_params_def keccak_init_def
      locate_none ossl_sha3_reset_def)

theorem shake_params_ignored_or_rejected_witness:
  "''size'' \<noteq> OSSL_DIGEST_PARAM_XOFLEN
   \<and> shake_set_ctx_params (Some (SHA3_newctx 31 128))
        (Some [\<lparr>param_key = ''size'', param_data = UNSIGNED_INTEGER 64\<rparr>])
      = (1, None, Some (SHA3_newctx 31 128))
   \<and> OSSL_PARAM_locate_const [\<lparr>param_key = ''xoflen'', param_data = UTF8_STRING ''long''\<rparr>]
        OSSL_DIGEST_PARAM_XOFLEN
      = Some \<lparr>param_key = ''xoflen'', param_data = UTF8_STRING ''long''\<rparr>
   \<and> OSSL_PARAM_get_size_t \<lparr>param_key = ''xoflen'', param_data = UTF8_STRING ''long''\<rparr> = None
   \<and> shake_set_ctx_params (Some (SHA3_newctx 31 128))
        (Some [\<lparr>param_key = ''xoflen'', param_data = UTF8_STRING ''long''\<rparr>])
      = (0, Some PROV_R_FAILED_TO_GET_PARAMETER, Some (SHA3_newctx 31 128))
   \<and> keccak_init_params True (SHA3_newctx 31 128)
        (Some [\<lparr>param_key = ''xoflen'', param_data = UTF8_STRING ''long''\<rparr>])
      = (0, Some PROV_R_FAILED_TO_GET_PARAMETER, Some (ossl_sha3_reset (SHA3_newctx 31 128)))"
proof -
  have a: "\<forall>p \<in> set [\<lparr>param_key = ''size'', param_data = UNSIGNED_INTEGER 64\<rparr>].
       param_key p \<noteq> OSSL_DIGEST_PARAM_XOFLEN"
    by (simp add: OSSL_DIGEST_PARAM_XOFLEN_def)
  have b: "OSSL_PARAM_get_size_t \<lparr>param_key = ''xoflen'', param_data = UTF8_STRING ''long''\<rparr> = None"
    by (simp add: OSSL_PARAM_get_size_t_def)
  note l = locate_xoflen_single [of "UTF8_STRING ''long''"]
  have c: "''size'' \<noteq> OSSL_DIGEST_PARAM_XOFLEN"
    by (simp add: OSSL_DIGEST_PARAM_XOFLEN_def)
  from a b c l
    shake_params_ignored_or_rejected
      [of "[\<lparr>param_key = ''size'', param_data = UNSIGNED_INTEGER 64\<rparr>]" "SHA3_newctx 31 128" True]
    shake_params_ignored_or_rejected
      [of "[\<lparr>param_key = ''xoflen'', param_data = UTF8_STRING ''long''\<rparr>]" "SHA3_newctx 31 128" True
          "\<lparr>param_key = ''xoflen'', param_data = UTF8_STRING ''long''\<rparr>"]
  show ?thesis
    by simp
qed

text \<open>
  C7 as stated fails for initialisation: with the provider not running,
  \<open>keccak_init_params\<close> returns 0 on a list that holds only an unrecognised key; and
  with the provider running it succeeds but resets the context, so a context holding
  buffered input does not come back unchanged.
\<close>

theorem init_params_fails_or_resets:
  "keccak_init_params False (SHA3_newctx 31 128)
       (Some [\<lparr>param_key = ''size'', param_data = UNSIGNED_INTEGER 64\<rparr>])
     = (0, None, Some (SHA3_newctx 31 128))
   \<and> keccak_init_params True ((SHA3_newctx 31 128)\<lparr>bufsz := 3\<rparr>)
       (Some [\<lparr>param_key = ''size'', param_data = UNSIGNED_INTEGER 64\<rparr>])
     = (1, None, Some (SHA3_newctx 31 128))
   \<and> (SHA3_newctx 31 128)\<lparr>bufsz := 3\<rparr> \<noteq> SHA3_newctx 31 128"
proof -
  have "bufsz ((SHA3_newctx 31 128)\<lparr>bufsz := 3\<rparr>) \<noteq> bufsz (SHA3_newctx 31 128)"
    by (simp add: SHA3_newctx_def)
  then have "(SHA3_newctx 31 128)\<lparr>bufsz := 3\<rparr> \<noteq> SHA3_newctx 31 128"
    by (metis (no_types))
  then show ?thesis
    by (simp add: keccak_init_params_def keccak_init_def shake_set_ctx_params_def
        OSSL_PARAM_locate_const_def OSSL_DIGEST_PARAM_XOFLEN_def ossl_sha3_reset_def
        SHA3_newctx_def)
qed




end
